theory Spec2Isabelle
  imports Complex_Main
begin

section \<open>frontend/src/lib/api.ts\<close>

text \<open>
  The dashboard is a React front end. Each component is embedded as a record of its
  state variables together with one function per callback, effect and continuation: an
  \<^verbatim>\<open>async\<close> function is cut at its \<^verbatim>\<open>await\<close> into the part that runs at the call and
  the part that runs when the awaited promise has settled.
  A JavaScript \<^verbatim>\<open>number\<close> is idealised as a rational: the inputs of the forms are
  finite decimal numbers, and no property below depends on binary rounding.
  An optional field (\<^verbatim>\<open>f?: T\<close>, possibly \<^verbatim>\<open>undefined\<close>) is an \<open>option\<close>.

  Names are the source's, but for these: the field \<^verbatim>\<open>value\<close> of an item is
  \<open>traded_value\<close>; the fields of \<^verbatim>\<open>Symbol\<close>, \<^verbatim>\<open>Quote\<close> and \<^verbatim>\<open>Top10Response\<close> carry a
  prefix, since a field name belongs to one record; the markets are \<open>Market_KOSPI\<close>,
  \<open>Market_KOSDAQ\<close> and \<open>Market_ALL\<close>, and the two markets a symbol can be listed on
  (\<^verbatim>\<open>'KOSPI' | 'KOSDAQ'\<close>) are a type of their own; the \<^verbatim>\<open>loading\<close> flag of the search
  box is \<open>searching\<close>.
\<close>

type_synonym number = rat

datatype Market = Market_KOSPI | Market_KOSDAQ | Market_ALL

datatype Listing = Listed_KOSPI | Listed_KOSDAQ

datatype SortBy = By_value | By_weighted

record Symbol =
  sym_code :: string
  sym_name :: string
  sym_market :: Listing

record Quote =
  quote_code :: string
  quote_name :: string
  quote_market :: Listing
  quote_price :: number
  quote_chg_pct :: number
  quote_volume :: number
  quote_value :: number
  quote_asof :: string

record Top10Item =
  rank :: number
  code :: string
  name :: string
  item_market :: Listing
  price :: number
  chg_pct :: number
  traded_value :: number
  stop_price :: "number option"
  max_shares :: "number option"
  max_investment :: "number option"
  risk_amount :: "number option"

record Top10Response =
  resp_asof :: string
  resp_items :: "Top10Item list"

record Top10Params =
  market :: "Market option"
  min_value :: "number option"
  min_chg_pct :: "number option"
  max_chg_pct :: "number option"
  min_price :: "number option"
  max_price :: "number option"
  sort_by :: "SortBy option"
  account_size :: "number option"
  risk_pct :: "number option"
  stop_pct :: "number option"
  cap_pct :: "number option"

text \<open>The string literals of the union types \<^verbatim>\<open>'KOSPI' | 'KOSDAQ' | 'ALL'\<close> and
  \<^verbatim>\<open>'value' | 'weighted'\<close>.\<close>

fun market_literal :: "Market \<Rightarrow> string" where
  "market_literal Market_KOSPI = ''KOSPI''"
| "market_literal Market_KOSDAQ = ''KOSDAQ''"
| "market_literal Market_ALL = ''ALL''"

fun sort_literal :: "SortBy \<Rightarrow> string" where
  "sort_literal By_value = ''value''"
| "sort_literal By_weighted = ''weighted''"

text \<open>JavaScript truthiness of a string (\<^verbatim>\<open>if (s)\<close>): every string but the empty one;
  of a number that is not NaN: every number but zero.\<close>

definition truthy_string :: "string \<Rightarrow> bool" where
  "truthy_string s = (s \<noteq> [])"

definition truthy_number :: "number \<Rightarrow> bool" where
  "truthy_number x = (x \<noteq> 0)"

text \<open>\<^verbatim>\<open>a ?? b\<close>\<close>

definition nullish :: "'a option \<Rightarrow> 'a \<Rightarrow> 'a" where
  "nullish a b = (case a of None \<Rightarrow> b | Some x \<Rightarrow> x)"

text \<open>
  \<^verbatim>\<open>URLSearchParams\<close>: an ordered list of name and value pairs. \<^verbatim>\<open>set(k, v)\<close> overwrites
  the first pair named \<open>k\<close> and deletes the other pairs of that name, or appends the pair
  when there is none.
\<close>

type_synonym URLSearchParams = "(string \<times> string) list"

fun searchParams_set :: "string \<Rightarrow> string \<Rightarrow> URLSearchParams \<Rightarrow> URLSearchParams" where
  "searchParams_set k v [] = [(k, v)]"
| "searchParams_set k v ((k', v') # ps) =
     (if k' = k then (k, v) # filter (\<lambda>(a, b). a \<noteq> k) ps
      else (k', v') # searchParams_set k v ps)"

text \<open>
  The two guarded statements the request builders are made of, for an optional
  argument whose text is \<open>v\<close>:
  \<^verbatim>\<open>if (v) searchParams.set(k, v);\<close> and
  \<^verbatim>\<open>if (v !== undefined) searchParams.set(k, v.toString());\<close>
\<close>

definition set_if_truthy :: "string \<Rightarrow> string option \<Rightarrow> URLSearchParams \<Rightarrow> URLSearchParams" where
  "set_if_truthy k v searchParams =
    (case v of
       Some x \<Rightarrow> if truthy_string x then searchParams_set k x searchParams else searchParams
     | None \<Rightarrow> searchParams)"

definition set_if_defined :: "string \<Rightarrow> string option \<Rightarrow> URLSearchParams \<Rightarrow> URLSearchParams" where
  "set_if_defined k v searchParams =
    (case v of Some x \<Rightarrow> searchParams_set k x searchParams | None \<Rightarrow> searchParams)"

text \<open>
  \<^verbatim>\<open>getTop10\<close>, up to its \<^verbatim>\<open>fetch\<close>: the search parameters of the request URL.
  \<open>toString\<close> is \<^verbatim>\<open>Number.prototype.toString\<close>, taken as a parameter.
  The source has one statement per field, in this order:
  \<^verbatim>\<open>if (params.market) searchParams.set('market', params.market);\<close>
  \<^verbatim>\<open>if (params.min_value !== undefined) searchParams.set('min_value', params.min_value.toString());\<close>
  and so on; \<^verbatim>\<open>market\<close> and \<^verbatim>\<open>sort_by\<close> are tested for truthiness, the numeric
  fields against \<^verbatim>\<open>undefined\<close>.
\<close>

definition getTop10_searchParams :: "(number \<Rightarrow> string) \<Rightarrow> Top10Params \<Rightarrow> URLSearchParams" where
  "getTop10_searchParams toString params =
    (let searchParams = [];
         searchParams = set_if_truthy ''market'' (map_option market_literal (market params)) searchParams;
         searchParams = set_if_defined ''min_value'' (map_option toString (min_value params)) searchParams;
         searchParams = set_if_defined ''min_chg_pct'' (map_option toString (min_chg_pct params)) searchParams;
         searchParams = set_if_defined ''max_chg_pct'' (map_option toString (max_chg_pct params)) searchParams;
         searchParams = set_if_defined ''min_price'' (map_option toString (min_price params)) searchParams;
         searchParams = set_if_defined ''max_price'' (map_option toString (max_price params)) searchParams;
         searchParams = set_if_truthy ''sort_by'' (map_option sort_literal (sort_by params)) searchParams;
         searchParams = set_if_defined ''account_size'' (map_option toString (account_size params)) searchParams;
         searchParams = set_if_defined ''risk_pct'' (map_option toString (risk_pct params)) searchParams;
         searchParams = set_if_defined ''stop_pct'' (map_option toString (stop_pct params)) searchParams;
         searchParams = set_if_defined ''cap_pct'' (map_option toString (cap_pct params)) searchParams
     in searchParams)"

text \<open>
  \<^verbatim>\<open>getSymbols(query?, market?)\<close>, up to its \<^verbatim>\<open>fetch\<close>:
  \<^verbatim>\<open>if (query) params.set('query', query);\<close>
  \<^verbatim>\<open>if (market && market !== 'ALL') params.set('market', market);\<close>
\<close>

definition getSymbols_searchParams :: "string option \<Rightarrow> string option \<Rightarrow> URLSearchParams" where
  "getSymbols_searchParams query_arg market_arg =
    (let params = [];
         params = set_if_truthy ''query'' query_arg params;
         params = (case market_arg of
            Some m \<Rightarrow> if truthy_string m \<and> m \<noteq> ''ALL''
                      then searchParams_set ''market'' m params else params
          | None \<Rightarrow> params)
     in params)"

text \<open>
  What \<^verbatim>\<open>await fetch(url)\<close> followed by \<^verbatim>\<open>response.json()\<close> can give: the
  \<^verbatim>\<open>fetch\<close> promise rejects (network or transport failure), or a response arrives with
  its \<^verbatim>\<open>ok\<close> flag and a body that parses to the declared type or does not parse.
\<close>

datatype 'a fetch_result = Network_failure | Response bool "'a option"

datatype js_error = Error string | TypeError | SyntaxError

text \<open>
  The rest of \<^verbatim>\<open>getTop10\<close>, \<^verbatim>\<open>getSymbols\<close> and \<^verbatim>\<open>getQuote\<close>: the value the returned
  promise settles with, \<open>Inl\<close> for a rejection.
  \<^verbatim>\<open>if (!response.ok) throw new Error('Failed to fetch top 10'); return response.json();\<close>
\<close>

definition settle_json :: "string \<Rightarrow> 'a fetch_result \<Rightarrow> js_error + 'a" where
  "settle_json message r =
    (case r of
       Network_failure \<Rightarrow> Inl TypeError
     | Response ok body \<Rightarrow>
         if \<not> ok then Inl (Error message)
         else (case body of None \<Rightarrow> Inl SyntaxError | Some v \<Rightarrow> Inr v))"

definition getTop10_settle :: "Top10Response fetch_result \<Rightarrow> js_error + Top10Response" where
  "getTop10_settle r = settle_json ''Failed to fetch top 10'' r"

definition getSymbols_settle :: "Symbol list fetch_result \<Rightarrow> js_error + Symbol list" where
  "getSymbols_settle r = settle_json ''Failed to fetch symbols'' r"

definition getQuote_settle :: "Quote fetch_result \<Rightarrow> js_error + Quote" where
  "getQuote_settle r = settle_json ''Failed to fetch quote'' r"


section \<open>frontend/src/components/FilterPanel.tsx and RiskInputPanel.tsx\<close>

text \<open>
  Both panels change the filters through the same callback,
  \<^verbatim>\<open>handleChange = (key, value) => { onChange({ ...filters, [key]: value }); }\<close>.
  A call is a key of \<^verbatim>\<open>Top10Params\<close> with a value of that key's type; the object
  handed to \<^verbatim>\<open>onChange\<close> is a copy of the current filters with that one key
  overwritten.
\<close>

datatype Top10Params_update =
    Set_market "Market option"
  | Set_min_value "number option"
  | Set_min_chg_pct "number option"
  | Set_max_chg_pct "number option"
  | Set_min_price "number option"
  | Set_max_price "number option"
  | Set_sort_by "SortBy option"
  | Set_account_size "number option"
  | Set_risk_pct "number option"
  | Set_stop_pct "number option"
  | Set_cap_pct "number option"

fun spread_with :: "Top10Params \<Rightarrow> Top10Params_update \<Rightarrow> Top10Params" where
  "spread_with p (Set_market v) = p\<lparr>market := v\<rparr>"
| "spread_with p (Set_min_value v) = p\<lparr>min_value := v\<rparr>"
| "spread_with p (Set_min_chg_pct v) = p\<lparr>min_chg_pct := v\<rparr>"
| "spread_with p (Set_max_chg_pct v) = p\<lparr>max_chg_pct := v\<rparr>"
| "spread_with p (Set_min_price v) = p\<lparr>min_price := v\<rparr>"
| "spread_with p (Set_max_price v) = p\<lparr>max_price := v\<rparr>"
| "spread_with p (Set_sort_by v) = p\<lparr>sort_by := v\<rparr>"
| "spread_with p (Set_account_size v) = p\<lparr>account_size := v\<rparr>"
| "spread_with p (Set_risk_pct v) = p\<lparr>risk_pct := v\<rparr>"
| "spread_with p (Set_stop_pct v) = p\<lparr>stop_pct := v\<rparr>"
| "spread_with p (Set_cap_pct v) = p\<lparr>cap_pct := v\<rparr>"

text \<open>\<^verbatim>\<open>Math.round\<close>: the nearest integer, a half rounded up.\<close>

definition Math_round :: "number \<Rightarrow> int" where
  "Math_round x = \<lfloor>x + 1 / 2\<rfloor>"

text \<open>
  The two amounts the risk panel computes by itself and prints under its inputs
  (\<open>None\<close> is the dash printed instead; the integer is handed to \<^verbatim>\<open>Intl.NumberFormat\<close>):
  \<^verbatim>\<open>params.account_size && params.risk_pct
      ? format(Math.round(params.account_size * (params.risk_pct ?? 0.01))) : '-'\<close>
  and the same with \<^verbatim>\<open>cap_pct\<close> and \<^verbatim>\<open>0.10\<close>.
\<close>

definition allowed_loss_text :: "Top10Params \<Rightarrow> int option" where
  "allowed_loss_text params =
    (case (account_size params, risk_pct params) of
       (Some a, Some r) \<Rightarrow>
         if truthy_number a \<and> truthy_number r
         then Some (Math_round (a * nullish (risk_pct params) (1 / 100)))
         else None
     | _ \<Rightarrow> None)"

definition max_investment_text :: "Top10Params \<Rightarrow> int option" where
  "max_investment_text params =
    (case (account_size params, cap_pct params) of
       (Some a, Some c) \<Rightarrow>
         if truthy_number a \<and> truthy_number c
         then Some (Math_round (a * nullish (cap_pct params) (10 / 100)))
         else None
     | _ \<Rightarrow> None)"

section \<open>frontend/src/components/Top10Table.tsx\<close>

text \<open>
  What the table component renders: the spinner while loading, the empty-state message
  for an empty list, and otherwise the header line with the \<^verbatim>\<open>asof\<close> stamp (when the
  string is not empty), the column headers, and one row of cells per item. The three
  risk columns stand inside \<^verbatim>\<open>{showRisk && (...)}\<close>, in the header and in every row; a
  risk cell prints a dash when the server's field is missing or zero.
\<close>

datatype column =
    Col_rank | Col_name | Col_price | Col_chg_pct | Col_traded_value
  | Col_stop_price | Col_max_shares | Col_max_investment

datatype cell = Number_cell number | Text_cell string | Dash

datatype Top10Table_view =
    Loading_view
  | Empty_view
  | Table_view "string option" "column list" "(column \<times> cell) list list"

definition risk_cell :: "number option \<Rightarrow> cell" where
  "risk_cell v = (case v of Some x \<Rightarrow> if truthy_number x then Number_cell x else Dash | None \<Rightarrow> Dash)"

definition Top10Table_header :: "bool \<Rightarrow> column list" where
  "Top10Table_header showRisk =
     [Col_rank, Col_name, Col_price, Col_chg_pct, Col_traded_value] @
     (if showRisk then [Col_stop_price, Col_max_shares, Col_max_investment] else [])"

definition Top10Table_row :: "bool \<Rightarrow> Top10Item \<Rightarrow> (column \<times> cell) list" where
  "Top10Table_row showRisk item =
     [(Col_rank, Number_cell (rank item)),
      (Col_name, Text_cell (name item)),
      (Col_price, Number_cell (price item)),
      (Col_chg_pct, Number_cell (chg_pct item)),
      (Col_traded_value, Number_cell (traded_value item))] @
     (if showRisk
      then [(Col_stop_price, risk_cell (stop_price item)),
            (Col_max_shares, risk_cell (max_shares item)),
            (Col_max_investment, risk_cell (max_investment item))]
      else [])"

definition Top10Table :: "Top10Item list \<Rightarrow> string \<Rightarrow> bool \<Rightarrow> bool \<Rightarrow> Top10Table_view" where
  "Top10Table items asof_prop showRisk loading_prop =
    (if loading_prop then Loading_view
     else if length items = 0 then Empty_view
     else Table_view (if truthy_string asof_prop then Some asof_prop else None)
            (Top10Table_header showRisk)
            (map (Top10Table_row showRisk) items))"

text \<open>The risk columns a rendered view shows: those of its header and of each of its rows.\<close>

definition is_sizing_column :: "column \<Rightarrow> bool" where
  "is_sizing_column c = (c = Col_stop_price \<or> c = Col_max_shares \<or> c = Col_max_investment)"

fun header_sizing_columns :: "Top10Table_view \<Rightarrow> column list" where
  "header_sizing_columns (Table_view stamp header rows) = filter is_sizing_column header"
| "header_sizing_columns Loading_view = []"
| "header_sizing_columns Empty_view = []"

fun row_sizing_columns :: "Top10Table_view \<Rightarrow> column list list" where
  "row_sizing_columns (Table_view stamp header rows) =
     map (\<lambda>r. filter is_sizing_column (map fst r)) rows"
| "row_sizing_columns Loading_view = []"
| "row_sizing_columns Empty_view = []"

definition sizing_columns_rendered :: "Top10Table_view \<Rightarrow> bool" where
  "sizing_columns_rendered v =
     (header_sizing_columns v @ concat (row_sizing_columns v) \<noteq> [])"


section \<open>frontend/src/app/page.tsx: the Home component\<close>

text \<open>
  The state variables of \<^verbatim>\<open>Home\<close>, and three fields for what lies outside it.
  \<open>filters_ref\<close> is the identity of the object held in \<^verbatim>\<open>filters\<close>: React compares a
  new state, and the dependencies of \<^verbatim>\<open>useCallback\<close> and \<^verbatim>\<open>useEffect\<close>, with
  \<^verbatim>\<open>Object.is\<close>, which for objects is identity. \<open>heap_next\<close> is the next unused
  identity. \<open>requests\<close> lists the arguments of the calls of \<^verbatim>\<open>getTop10\<close> so far, each
  call sending one request; \<open>in_flight\<close> lists the positions in \<open>requests\<close> of the calls
  whose promise has not settled.
\<close>

record Home =
  filters :: Top10Params
  filters_ref :: nat
  top10 :: "Top10Item list"
  asof :: string
  loading :: bool
  selectedQuote :: "Quote option"
  error :: "string option"
  heap_next :: nat
  requests :: "Top10Params list"
  in_flight :: "nat list"

text \<open>The argument of the first \<^verbatim>\<open>useState\<close>.\<close>

definition initial_filters :: Top10Params where
  "initial_filters =
    \<lparr>market = Some Market_ALL, min_value = None, min_chg_pct = None, max_chg_pct = None,
     min_price = None, max_price = None, sort_by = Some By_value, account_size = None,
     risk_pct = Some (1 / 100), stop_pct = Some (3 / 100), cap_pct = Some (10 / 100)\<rparr>"

definition Home_initial :: Home where
  "Home_initial =
    \<lparr>filters = initial_filters, filters_ref = 0, top10 = [], asof = [], loading = False,
     selectedQuote = None, error = None, heap_next = 1, requests = [], in_flight = []\<rparr>"

text \<open>The message of \<^verbatim>\<open>setError\<close> in the catch block. The source's text is Korean; this
  is its translation.\<close>

definition fetch_failed_message :: string where
  "fetch_failed_message = ''Failed to load the data. Please try again in a moment.''"

text \<open>
  \<^verbatim>\<open>fetchTop10\<close> runs in two parts. Up to the \<^verbatim>\<open>await\<close>:
  \<^verbatim>\<open>setLoading(true); setError(null); getTop10(filters)\<close>, which sends the request.
\<close>

definition fetchTop10_call :: "Home \<Rightarrow> Home" where
  "fetchTop10_call s =
     s\<lparr>loading := True, error := None,
       requests := requests s @ [filters s],
       in_flight := in_flight s @ [length (requests s)]\<rparr>"

text \<open>
  And when the promise of \<^verbatim>\<open>getTop10\<close> has settled:
  \<^verbatim>\<open>try { const response = await ...; setTop10(response.items); setAsof(response.asof); }
  catch (err) { console.error(...); setError(message); setTop10([]); }
  finally { setLoading(false); }\<close>
  The result is \<open>Inl\<close> if an error leaves the function (its promise rejects).
  Nothing is compared with the call that is resumed: the continuation writes the state
  whatever has been requested since.
\<close>

definition fetchTop10_resume :: "Top10Response fetch_result \<Rightarrow> Home \<Rightarrow> js_error + Home" where
  "fetchTop10_resume r s =
    (let tried = (case getTop10_settle r of
                    Inr response \<Rightarrow> Inr (s\<lparr>top10 := resp_items response, asof := resp_asof response\<rparr>)
                  | Inl err \<Rightarrow> Inl err);
         caught = (case tried of
                    Inr s' \<Rightarrow> Inr s'
                  | Inl err \<Rightarrow> Inr (s\<lparr>error := Some fetch_failed_message, top10 := []\<rparr>))
     in (case caught of
           Inr s' \<Rightarrow> Inr (s'\<lparr>loading := False\<rparr>)
         | Inl err \<Rightarrow> Inl err))"

text \<open>
  \<^verbatim>\<open>setFilters\<close> with an object: React drops the update when the object is the one it
  holds. Otherwise the component renders again, \<^verbatim>\<open>useCallback(..., [filters])\<close> gives a
  new \<^verbatim>\<open>fetchTop10\<close>, and the effect \<^verbatim>\<open>useEffect(() => { fetchTop10(); }, [fetchTop10])\<close>
  runs it. (The second effect restarts the five-minute interval.)
\<close>

definition setFilters :: "nat \<times> Top10Params \<Rightarrow> Home \<Rightarrow> Home" where
  "setFilters obj s =
    (if fst obj = filters_ref s then s
     else fetchTop10_call (s\<lparr>filters_ref := fst obj, filters := snd obj\<rparr>))"

text \<open>\<^verbatim>\<open>handleChange\<close> of either panel, with \<^verbatim>\<open>onChange={setFilters}\<close>: the spread
  allocates a new object.\<close>

definition handleChange :: "Top10Params_update \<Rightarrow> Home \<Rightarrow> Home" where
  "handleChange u s =
     setFilters (heap_next s, spread_with (filters s) u) (s\<lparr>heap_next := Suc (heap_next s)\<rparr>)"

text \<open>\<^verbatim>\<open>handleSymbolSelect\<close>, resumed:
  \<^verbatim>\<open>try { setSelectedQuote(await getQuote(symbol.code)); } catch (err) { console.error(...); }\<close>\<close>

definition handleSymbolSelect_resume :: "Quote fetch_result \<Rightarrow> Home \<Rightarrow> Home" where
  "handleSymbolSelect_resume r s =
    (case getQuote_settle r of
       Inr quote \<Rightarrow> s\<lparr>selectedQuote := Some quote\<rparr>
     | Inl err \<Rightarrow> s)"

text \<open>\<^verbatim>\<open>const showRisk = filters.account_size !== undefined && filters.account_size > 0;\<close>\<close>

definition showRisk :: "Top10Params \<Rightarrow> bool" where
  "showRisk f = (case account_size f of None \<Rightarrow> False | Some a \<Rightarrow> a > 0)"

text \<open>\<^verbatim>\<open><Top10Table items={top10} asof={asof} showRisk={showRisk} loading={loading} />\<close>\<close>

definition Home_table :: "Home \<Rightarrow> Top10Table_view" where
  "Home_table s = Top10Table (top10 s) (asof s) (showRisk (filters s)) (loading s)"

text \<open>
  What can happen to a mounted \<^verbatim>\<open>Home\<close>: a panel changes a filter; the refresh button
  or the interval calls \<^verbatim>\<open>fetchTop10\<close>; the promise of a call of \<^verbatim>\<open>getTop10\<close>
  settles (only one in flight can); the promise of \<^verbatim>\<open>getQuote\<close> settles.
  Mounting runs the first effect once.
\<close>

datatype Home_event =
    Filter_change Top10Params_update
  | Refresh
  | Top10_settled nat "Top10Response fetch_result"
  | Quote_settled "Quote fetch_result"

fun Home_step :: "Home \<Rightarrow> Home_event \<Rightarrow> Home" where
  "Home_step s (Filter_change u) = handleChange u s"
| "Home_step s Refresh = fetchTop10_call s"
| "Home_step s (Top10_settled i r) =
     (if i \<in> set (in_flight s)
      then (case fetchTop10_resume r (s\<lparr>in_flight := remove1 i (in_flight s)\<rparr>) of
              Inr s' \<Rightarrow> s'
            | Inl err \<Rightarrow> s\<lparr>in_flight := remove1 i (in_flight s)\<rparr>)
      else s)"
| "Home_step s (Quote_settled r) = handleSymbolSelect_resume r s"

definition Home_mounted :: Home where
  "Home_mounted = fetchTop10_call Home_initial"

definition Home_run :: "Home_event list \<Rightarrow> Home" where
  "Home_run evs = foldl Home_step Home_mounted evs"

section \<open>frontend/src/components/SearchBar.tsx\<close>

text \<open>
  The state variables of \<^verbatim>\<open>SearchBar\<close>, and outside it:
  \<^item> \<open>timeouts\<close>, the timeouts of the browser that are pending, each with the id
    \<^verbatim>\<open>setTimeout\<close> returned for it, the milliseconds left and the \<^verbatim>\<open>query\<close> its
    callback closed over. A timeout stays pending until it fires or \<^verbatim>\<open>clearTimeout\<close>
    is called with its id;
  \<^item> \<open>next_timeout\<close>, the id \<^verbatim>\<open>setTimeout\<close> returns next;
  \<^item> \<open>cleanup\<close>, the cleanup function the last run of the effect returned: the id of
    the timeout it clears, or \<open>None\<close> when that run returned nothing;
  \<^item> \<open>lookups\<close>, the arguments of the calls of \<^verbatim>\<open>getSymbols\<close> so far, and
    \<open>lookups_in_flight\<close>, the positions of those whose promise has not settled.
\<close>

record SearchBar =
  query :: string
  results :: "Symbol list"
  isOpen :: bool
  searching :: bool
  timeouts :: "(nat \<times> nat \<times> string) list"
  next_timeout :: nat
  cleanup :: "nat option"
  lookups :: "string list"
  lookups_in_flight :: "nat list"

definition SearchBar_initial :: SearchBar where
  "SearchBar_initial =
    \<lparr>query = [], results = [], isOpen = False, searching = False, timeouts = [],
     next_timeout = 0, cleanup = None, lookups = [], lookups_in_flight = []\<rparr>"

text \<open>\<^verbatim>\<open>setTimeout(callback, delay)\<close> adds a pending timeout under a new id;
  \<^verbatim>\<open>clearTimeout(id)\<close> removes the timeout of that id, if it is still pending.\<close>

definition setTimeout :: "string \<Rightarrow> nat \<Rightarrow> SearchBar \<Rightarrow> SearchBar" where
  "setTimeout q delay s =
     s\<lparr>timeouts := timeouts s @ [(next_timeout s, delay, q)],
       next_timeout := Suc (next_timeout s)\<rparr>"

definition clearTimeout :: "nat \<Rightarrow> SearchBar \<Rightarrow> SearchBar" where
  "clearTimeout t s = s\<lparr>timeouts := filter (\<lambda>(id, left, q). id \<noteq> t) (timeouts s)\<rparr>"

text \<open>
  The effect on \<^verbatim>\<open>[query]\<close>:
  \<^verbatim>\<open>if (query.length < 1) { setResults([]); return; }
  const timer = setTimeout(async () => {...}, 300);
  return () => clearTimeout(timer);\<close>
  and the cleanup of its last run, which React calls before the effect runs again.
\<close>

definition query_effect :: "SearchBar \<Rightarrow> SearchBar" where
  "query_effect s =
    (if length (query s) < 1 then s\<lparr>results := [], cleanup := None\<rparr>
     else (setTimeout (query s) 300 s)\<lparr>cleanup := Some (next_timeout s)\<rparr>)"

definition query_effect_cleanup :: "SearchBar \<Rightarrow> SearchBar" where
  "query_effect_cleanup s = (case cleanup s of None \<Rightarrow> s | Some timer \<Rightarrow> clearTimeout timer s)"

text \<open>\<^verbatim>\<open>setQuery\<close>: a string equal to the current one changes nothing (no render, no
  effect); another one is stored and the effect runs again after its cleanup.\<close>

definition setQuery :: "string \<Rightarrow> SearchBar \<Rightarrow> SearchBar" where
  "setQuery word s =
    (if word = query s then s
     else query_effect (query_effect_cleanup (s\<lparr>query := word\<rparr>)))"

text \<open>The callback of the timeout, up to its \<^verbatim>\<open>await\<close>:
  \<^verbatim>\<open>setLoading(true); getSymbols(query)\<close>.\<close>

definition timeout_call :: "string \<Rightarrow> SearchBar \<Rightarrow> SearchBar" where
  "timeout_call q s =
     s\<lparr>searching := True,
       lookups := lookups s @ [q],
       lookups_in_flight := lookups_in_flight s @ [length (lookups s)]\<rparr>"

text \<open>And resumed:
  \<^verbatim>\<open>try { const symbols = await ...; setResults(symbols.slice(0, 10)); setIsOpen(true); }
  catch (error) { console.error(...); } finally { setLoading(false); }\<close>\<close>

definition timeout_resume :: "Symbol list fetch_result \<Rightarrow> SearchBar \<Rightarrow> js_error + SearchBar" where
  "timeout_resume r s =
    (let tried = (case getSymbols_settle r of
                    Inr symbols \<Rightarrow> Inr (s\<lparr>results := take 10 symbols, isOpen := True\<rparr>)
                  | Inl err \<Rightarrow> Inl err);
         caught = (case tried of Inr s' \<Rightarrow> Inr s' | Inl err \<Rightarrow> Inr s)
     in (case caught of
           Inr s' \<Rightarrow> Inr (s'\<lparr>searching := False\<rparr>)
         | Inl err \<Rightarrow> Inl err))"

text \<open>\<^verbatim>\<open>handleSelect\<close>:
  \<^verbatim>\<open>setQuery(`${symbol.name} (${symbol.code})`); setIsOpen(false); onSelect?.(symbol);\<close>\<close>

definition handleSelect :: "Symbol \<Rightarrow> SearchBar \<Rightarrow> SearchBar" where
  "handleSelect symbol s =
     (setQuery (sym_name symbol @ '' ('' @ sym_code symbol @ '')'') s)\<lparr>isOpen := False\<rparr>"

text \<open>\<^verbatim>\<open>onFocus={() => results.length > 0 && setIsOpen(true)}\<close>\<close>

definition onFocus :: "SearchBar \<Rightarrow> SearchBar" where
  "onFocus s = (if length (results s) > 0 then s\<lparr>isOpen := True\<rparr> else s)"

text \<open>The list is rendered under \<^verbatim>\<open>{isOpen && results.length > 0 && (...)}\<close>.\<close>

definition list_shown :: "SearchBar \<Rightarrow> bool" where
  "list_shown s = (isOpen s \<and> length (results s) > 0)"

text \<open>
  Time passes: \<open>d\<close> milliseconds without any other event. Every pending timeout whose
  delay has run out by then is taken off the pending ones and its callback is called,
  the one that was due first coming first (and of two due together, the one set
  first); the others have \<open>d\<close> milliseconds less to wait.
\<close>

definition elapse :: "nat \<Rightarrow> SearchBar \<Rightarrow> SearchBar" where
  "elapse d s =
    (let due = sort_key (\<lambda>(id, left, q). left) (filter (\<lambda>(id, left, q). left \<le> d) (timeouts s));
         waiting = map (\<lambda>(id, left, q). (id, left - d, q))
                     (filter (\<lambda>(id, left, q). \<not> left \<le> d) (timeouts s))
     in foldl (\<lambda>s' (id, left, q). timeout_call q s') (s\<lparr>timeouts := waiting\<rparr>) due)"

datatype SearchBar_event =
    Input string
  | Elapse nat
  | Symbols_settled nat "Symbol list fetch_result"
  | Select Symbol
  | Focus

fun SearchBar_step :: "SearchBar \<Rightarrow> SearchBar_event \<Rightarrow> SearchBar" where
  "SearchBar_step s (Input word) = setQuery word s"
| "SearchBar_step s (Elapse d) = elapse d s"
| "SearchBar_step s (Symbols_settled i r) =
     (if i \<in> set (lookups_in_flight s)
      then (case timeout_resume r (s\<lparr>lookups_in_flight := remove1 i (lookups_in_flight s)\<rparr>) of
              Inr s' \<Rightarrow> s'
            | Inl err \<Rightarrow> s\<lparr>lookups_in_flight := remove1 i (lookups_in_flight s)\<rparr>)
      else s)"
| "SearchBar_step s (Select symbol) = handleSelect symbol s"
| "SearchBar_step s Focus = onFocus s"

text \<open>Mounting runs the effect once, on the empty query.\<close>

definition SearchBar_mounted :: SearchBar where
  "SearchBar_mounted = query_effect SearchBar_initial"

definition SearchBar_run :: "SearchBar_event list \<Rightarrow> SearchBar" where
  "SearchBar_run evs = foldl SearchBar_step SearchBar_mounted evs"

text \<open>Typing: further words, each after a pause.\<close>

fun typing :: "(nat \<times> string) list \<Rightarrow> SearchBar_event list" where
  "typing [] = []"
| "typing ((d, word) # rest) = Elapse d # Input word # typing rest"

section \<open>The risk-sizing formula\<close>

text \<open>
  Modelled from the spec: the function \<^verbatim>\<open>compute\<close> of the RiskSizingFormula component
  (section 4.1). The front end under study prints the server's \<^verbatim>\<open>stop_price\<close>,
  \<^verbatim>\<open>max_shares\<close> and \<^verbatim>\<open>max_investment\<close> and computes none of them; the code that does
  is not among the source files. Each definition below follows the spec's sentence for
  it. The fields of the preview carry a prefix where the spec's name is already a field
  of \<^verbatim>\<open>Top10Item\<close>.
\<close>

record SizingPreview =
  allowed_loss :: number
  preview_stop_price :: number
  preview_max_shares :: int
  preview_max_investment :: number

text \<open>Modelled from the spec: allowed_loss = account_size \<times> risk_fraction.\<close>

definition sizing_allowed_loss :: "number \<Rightarrow> number \<Rightarrow> number" where
  "sizing_allowed_loss account risk_fraction = account * risk_fraction"

text \<open>Modelled from the spec: stop_price = entry_price \<times> (1 - stop_fraction), floored
  at 0.\<close>

definition sizing_stop_price :: "number \<Rightarrow> number \<Rightarrow> number" where
  "sizing_stop_price entry_price stop_fraction = max 0 (entry_price * (1 - stop_fraction))"

text \<open>Modelled from the spec: risk_per_share = entry_price \<times> stop_fraction.\<close>

definition risk_per_share :: "number \<Rightarrow> number \<Rightarrow> number" where
  "risk_per_share entry_price stop_fraction = entry_price * stop_fraction"

text \<open>Modelled from the spec: max_shares_by_risk = floor(allowed_loss / risk_per_share)
  when risk_per_share > 0, else unbounded. \<open>None\<close> is the unbounded case.\<close>

definition max_shares_by_risk :: "number \<Rightarrow> number \<Rightarrow> number \<Rightarrow> number \<Rightarrow> int option" where
  "max_shares_by_risk entry_price account risk_fraction stop_fraction =
    (if risk_per_share entry_price stop_fraction > 0
     then Some \<lfloor>sizing_allowed_loss account risk_fraction / risk_per_share entry_price stop_fraction\<rfloor>
     else None)"

text \<open>Modelled from the spec: max_investment_by_cap = account_size \<times> cap_fraction.\<close>

definition max_investment_by_cap :: "number \<Rightarrow> number \<Rightarrow> number" where
  "max_investment_by_cap account cap_fraction = account * cap_fraction"

text \<open>Modelled from the spec: max_shares_by_cap = floor(max_investment_by_cap /
  entry_price).\<close>

definition max_shares_by_cap :: "number \<Rightarrow> number \<Rightarrow> number \<Rightarrow> int" where
  "max_shares_by_cap entry_price account cap_fraction =
     \<lfloor>max_investment_by_cap account cap_fraction / entry_price\<rfloor>"

text \<open>Modelled from the spec: max_shares = min(max_shares_by_risk, max_shares_by_cap),
  floored at 0.\<close>

definition sizing_max_shares :: "number \<Rightarrow> number \<Rightarrow> number \<Rightarrow> number \<Rightarrow> number \<Rightarrow> int" where
  "sizing_max_shares entry_price account risk_fraction stop_fraction cap_fraction =
     max 0 (case max_shares_by_risk entry_price account risk_fraction stop_fraction of
              None \<Rightarrow> max_shares_by_cap entry_price account cap_fraction
            | Some by_risk \<Rightarrow> min by_risk (max_shares_by_cap entry_price account cap_fraction))"

text \<open>Modelled from the spec: max_investment = max_shares \<times> entry_price.\<close>

definition sizing_max_investment :: "number \<Rightarrow> number \<Rightarrow> number \<Rightarrow> number \<Rightarrow> number \<Rightarrow> number" where
  "sizing_max_investment entry_price account risk_fraction stop_fraction cap_fraction =
     of_int (sizing_max_shares entry_price account risk_fraction stop_fraction cap_fraction) * entry_price"

text \<open>Modelled from the spec: \<^verbatim>\<open>compute(entry_price, account_size, risk_fraction,
  stop_fraction, cap_fraction) -> SizingPreview | None\<close>, with no preview when the
  account size is absent or not positive.\<close>

definition compute ::
  "number \<Rightarrow> number option \<Rightarrow> number \<Rightarrow> number \<Rightarrow> number \<Rightarrow> SizingPreview option" where
  "compute entry_price account_opt risk_fraction stop_fraction cap_fraction =
    (case account_opt of
       None \<Rightarrow> None
     | Some account \<Rightarrow>
         if account \<le> 0 then None
         else Some
           \<lparr>allowed_loss = sizing_allowed_loss account risk_fraction,
            preview_stop_price = sizing_stop_price entry_price stop_fraction,
            preview_max_shares =
              sizing_max_shares entry_price account risk_fraction stop_fraction cap_fraction,
            preview_max_investment =
              sizing_max_investment entry_price account risk_fraction stop_fraction cap_fraction\<rparr>)"

section \<open>Vocabulary of the properties\<close>

text \<open>
  The eleven fields of \<^verbatim>\<open>Top10Params\<close> in the order \<^verbatim>\<open>getTop10\<close> visits them, the
  name each has in the query string, whether the filter state holds a value for it,
  and the text of that value.
\<close>

datatype field =
    F_market | F_min_value | F_min_chg_pct | F_max_chg_pct | F_min_price | F_max_price
  | F_sort_by | F_account_size | F_risk_pct | F_stop_pct | F_cap_pct

definition all_fields :: "field list" where
  "all_fields =
    [F_market, F_min_value, F_min_chg_pct, F_max_chg_pct, F_min_price, F_max_price,
     F_sort_by, F_account_size, F_risk_pct, F_stop_pct, F_cap_pct]"

fun field_name :: "field \<Rightarrow> string" where
  "field_name F_market = ''market''"
| "field_name F_min_value = ''min_value''"
| "field_name F_min_chg_pct = ''min_chg_pct''"
| "field_name F_max_chg_pct = ''max_chg_pct''"
| "field_name F_min_price = ''min_price''"
| "field_name F_max_price = ''max_price''"
| "field_name F_sort_by = ''sort_by''"
| "field_name F_account_size = ''account_size''"
| "field_name F_risk_pct = ''risk_pct''"
| "field_name F_stop_pct = ''stop_pct''"
| "field_name F_cap_pct = ''cap_pct''"

fun present :: "Top10Params \<Rightarrow> field \<Rightarrow> bool" where
  "present p F_market = (market p \<noteq> None)"
| "present p F_min_value = (min_value p \<noteq> None)"
| "present p F_min_chg_pct = (min_chg_pct p \<noteq> None)"
| "present p F_max_chg_pct = (max_chg_pct p \<noteq> None)"
| "present p F_min_price = (min_price p \<noteq> None)"
| "present p F_max_price = (max_price p \<noteq> None)"
| "present p F_sort_by = (sort_by p \<noteq> None)"
| "present p F_account_size = (account_size p \<noteq> None)"
| "present p F_risk_pct = (risk_pct p \<noteq> None)"
| "present p F_stop_pct = (stop_pct p \<noteq> None)"
| "present p F_cap_pct = (cap_pct p \<noteq> None)"

fun field_text :: "(number \<Rightarrow> string) \<Rightarrow> Top10Params \<Rightarrow> field \<Rightarrow> string option" where
  "field_text toString p F_market = map_option market_literal (market p)"
| "field_text toString p F_min_value = map_option toString (min_value p)"
| "field_text toString p F_min_chg_pct = map_option toString (min_chg_pct p)"
| "field_text toString p F_max_chg_pct = map_option toString (max_chg_pct p)"
| "field_text toString p F_min_price = map_option toString (min_price p)"
| "field_text toString p F_max_price = map_option toString (max_price p)"
| "field_text toString p F_sort_by = map_option sort_literal (sort_by p)"
| "field_text toString p F_account_size = map_option toString (account_size p)"
| "field_text toString p F_risk_pct = map_option toString (risk_pct p)"
| "field_text toString p F_stop_pct = map_option toString (stop_pct p)"
| "field_text toString p F_cap_pct = map_option toString (cap_pct p)"

text \<open>The pair a field contributes to the query string, if any.\<close>

definition opt_entry :: "string \<Rightarrow> string option \<Rightarrow> URLSearchParams" where
  "opt_entry k v = (case v of None \<Rightarrow> [] | Some x \<Rightarrow> [(k, x)])"

text \<open>Every object the panels allocate is newer than the one \<^verbatim>\<open>Home\<close> holds.\<close>

definition wf_refs :: "Home \<Rightarrow> bool" where
  "wf_refs s = (filters_ref s < heap_next s)"

text \<open>No timeout of the search box is pending but the one whose id the registered
  cleanup holds.\<close>

definition cleanup_clears_all :: "SearchBar \<Rightarrow> bool" where
  "cleanup_clears_all s =
    (case cleanup s of
       None \<Rightarrow> timeouts s = []
     | Some t \<Rightarrow> filter (\<lambda>(id, left, q). id \<noteq> t) (timeouts s) = [])"

text \<open>The events that hand \<^verbatim>\<open>fetchTop10\<close> a response it can use.\<close>

definition successful :: "Home_event \<Rightarrow> bool" where
  "successful ev =
    (case ev of
       Top10_settled i r \<Rightarrow>
         (case r of Response ok body \<Rightarrow> ok \<and> body \<noteq> None | Network_failure \<Rightarrow> False)
     | _ \<Rightarrow> False)"

text \<open>Sample data for the concrete runs below.\<close>

definition example_params :: Top10Params where
  "example_params = initial_filters\<lparr>account_size := Some 10000000\<rparr>"

definition negative_params :: Top10Params where
  "negative_params = initial_filters\<lparr>account_size := Some (- 150)\<rparr>"

definition account_typed :: Top10Params_update where
  "account_typed = Set_account_size (Some 10000000)"

definition item_A :: Top10Item where
  "item_A =
    \<lparr>rank = 1, code = ''005930'', name = ''A'', item_market = Listed_KOSPI, price = 70000,
     chg_pct = 1, traded_value = 1000000, stop_price = None, max_shares = None,
     max_investment = None, risk_amount = None\<rparr>"

definition item_B :: Top10Item where
  "item_B = item_A\<lparr>code := ''000660'', name := ''B''\<rparr>"

definition response_A :: Top10Response where
  "response_A = \<lparr>resp_asof = ''2024-01-01T09:00:00'', resp_items = [item_A]\<rparr>"

definition response_B :: Top10Response where
  "response_B = \<lparr>resp_asof = ''2024-01-01T09:00:05'', resp_items = [item_B]\<rparr>"

definition symbol_A :: Symbol where
  "symbol_A = \<lparr>sym_code = ''005930'', sym_name = ''A'', sym_market = Listed_KOSPI\<rparr>"

definition symbol_AB :: Symbol where
  "symbol_AB = \<lparr>sym_code = ''000660'', sym_name = ''AB'', sym_market = Listed_KOSPI\<rparr>"

text \<open>The mount request (for all markets) is still in flight when the market filter
  changes; the second response arrives first, the first one last.\<close>

definition race_trace :: "Home_event list" where
  "race_trace =
    [Filter_change (Set_market (Some Market_KOSPI)),
     Top10_settled 1 (Response True (Some response_B)),
     Top10_settled 0 (Response True (Some response_A))]"

text \<open>The same for the search box: a lookup for A, then one for AB, answered in the
  opposite order.\<close>

definition search_race_trace :: "SearchBar_event list" where
  "search_race_trace =
    [Input ''A'', Elapse 300, Input ''AB'', Elapse 300,
     Symbols_settled 1 (Response True (Some [symbol_AB])),
     Symbols_settled 0 (Response True (Some [symbol_A]))]"

text \<open>A lookup for A is answered and its list opens.\<close>

definition opened_trace :: "SearchBar_event list" where
  "opened_trace = [Input ''A'', Elapse 300, Symbols_settled 0 (Response True (Some [symbol_A]))]"

section \<open>The query of the ranked-list request\<close>

lemma searchParams_set_fresh:
  "k \<notin> fst ` set ps \<Longrightarrow> searchParams_set k v ps = ps @ [(k, v)]"
  by (induction ps) auto

lemma set_if_defined_fresh:
  "k \<notin> fst ` set ps \<Longrightarrow> set_if_defined k v ps = ps @ opt_entry k v"
  by (cases v) (simp_all add: opt_entry_def set_if_defined_def searchParams_set_fresh)

lemma set_if_truthy_fresh:
  "k \<notin> fst ` set ps \<Longrightarrow> v \<noteq> Some [] \<Longrightarrow> set_if_truthy k v ps = ps @ opt_entry k v"
  by (cases v)
    (simp_all add: opt_entry_def set_if_truthy_def searchParams_set_fresh truthy_string_def)

text \<open>The literals of both union types are non-empty strings, so the truthiness test of
  \<^verbatim>\<open>market\<close> and \<^verbatim>\<open>sort_by\<close> only asks whether the field is defined.\<close>

lemma set_if_truthy_market:
  "k \<notin> fst ` set ps \<Longrightarrow>
   set_if_truthy k (map_option market_literal m) ps = ps @ opt_entry k (map_option market_literal m)"
  by (cases m; cases "the m") (simp_all add: set_if_truthy_fresh)

lemma set_if_truthy_sort:
  "k \<notin> fst ` set ps \<Longrightarrow>
   set_if_truthy k (map_option sort_literal b) ps = ps @ opt_entry k (map_option sort_literal b)"
  by (cases b; cases "the b") (simp_all add: set_if_truthy_fresh)

lemma opt_entry_other_key: "k \<noteq> k' \<Longrightarrow> k \<notin> fst ` set (opt_entry k' v)"
  by (cases v) (simp_all add: opt_entry_def)

lemma set_opt_entry: "set (opt_entry k v) = {(k, x) |x. v = Some x}"
  by (cases v) (simp_all add: opt_entry_def)

lemma map_of_opt_entry_same: "map_of (opt_entry k v) k = v"
  by (cases v) (simp_all add: opt_entry_def)

lemma map_of_opt_entry_other: "k' \<noteq> k \<Longrightarrow> map_of (opt_entry k v) k' = None"
  by (cases v) (simp_all add: opt_entry_def)

text \<open>No name is set twice, so every \<^verbatim>\<open>set\<close> appends: the query is the list of the
  defined fields, in the order of the source.\<close>

lemma getTop10_searchParams_entries:
  "getTop10_searchParams toString params =
     opt_entry ''market'' (map_option market_literal (market params)) @
     opt_entry ''min_value'' (map_option toString (min_value params)) @
     opt_entry ''min_chg_pct'' (map_option toString (min_chg_pct params)) @
     opt_entry ''max_chg_pct'' (map_option toString (max_chg_pct params)) @
     opt_entry ''min_price'' (map_option toString (min_price params)) @
     opt_entry ''max_price'' (map_option toString (max_price params)) @
     opt_entry ''sort_by'' (map_option sort_literal (sort_by params)) @
     opt_entry ''account_size'' (map_option toString (account_size params)) @
     opt_entry ''risk_pct'' (map_option toString (risk_pct params)) @
     opt_entry ''stop_pct'' (map_option toString (stop_pct params)) @
     opt_entry ''cap_pct'' (map_option toString (cap_pct params))"
  unfolding getTop10_searchParams_def Let_def
  by (simp add: set_if_truthy_market set_if_truthy_sort set_if_defined_fresh
      opt_entry_other_key image_Un)

lemma getTop10_searchParams_concat:
  "getTop10_searchParams toString params =
     concat (map (\<lambda>f. opt_entry (field_name f) (field_text toString params f)) all_fields)"
  by (simp add: getTop10_searchParams_entries all_fields_def)

lemma set_all_fields: "set all_fields = UNIV"
proof -
  have "f \<in> set all_fields" for f
    by (cases f) (simp_all add: all_fields_def)
  then show ?thesis by blast
qed

lemma getTop10_lookup:
  "map_of (getTop10_searchParams toString params) (field_name f) = field_text toString params f"
  unfolding getTop10_searchParams_entries
  by (cases f)
    (simp_all add: map_add_def map_of_opt_entry_same map_of_opt_entry_other split: option.split)

lemma getTop10_pairs:
  "set (getTop10_searchParams toString params) =
     {(field_name f, x) |f x. field_text toString params f = Some x}"
  unfolding getTop10_searchParams_concat
  by (auto simp: set_opt_entry set_all_fields)

lemma present_iff: "present params f = (field_text toString params f \<noteq> None)"
  by (cases f) simp_all

text \<open>
  Claim C7. For every filter state, \<^verbatim>\<open>getTop10\<close> puts a field into the query of the
  ranked-list request if and only if the filter state holds a value for it. The value
  sent is the text of the value held, and the query holds nothing else: no pair under
  another name, no default and no sentinel for a field left unset.
\<close>

theorem query_has_the_present_fields:
  "(field_name f \<in> fst ` set (getTop10_searchParams toString params)) = present params f
   \<and> map_of (getTop10_searchParams toString params) (field_name f) = field_text toString params f
   \<and> set (getTop10_searchParams toString params) =
       {(field_name g, x) |g x. field_text toString params g = Some x}"
proof -
  have "(field_name f \<in> fst ` set (getTop10_searchParams toString params)) =
        (map_of (getTop10_searchParams toString params) (field_name f) \<noteq> None)"
    by (simp add: map_of_eq_None_iff)
  then show ?thesis
    by (simp add: getTop10_lookup getTop10_pairs present_iff [of params f toString])
qed

text \<open>
  Claim C2 says that the query never carries the market when the market is ALL. The
  code sends it: whatever the other filters are, and in particular for the filters
  the page starts with, the query maps \<^verbatim>\<open>market\<close> to \<^verbatim>\<open>ALL\<close>. The neighbouring
  \<^verbatim>\<open>getSymbols\<close> does leave it out, by its test \<^verbatim>\<open>market !== 'ALL'\<close>.
\<close>

theorem market_ALL_is_sent:
  "map_of (getTop10_searchParams toString (params\<lparr>market := Some Market_ALL\<rparr>)) ''market'' =
     Some ''ALL''
   \<and> map_of (getTop10_searchParams toString initial_filters) ''market'' = Some ''ALL''
   \<and> map_of (getSymbols_searchParams q (Some ''ALL'')) ''market'' = None"
proof -
  have a: "map_of (getTop10_searchParams toString p) ''market'' =
      map_option market_literal (market p)" for p
    using getTop10_lookup [of toString p F_market] by simp
  have b: "map_of (getSymbols_searchParams q (Some ''ALL'')) ''market'' = None"
    by (cases q) (simp_all add: getSymbols_searchParams_def set_if_truthy_def truthy_string_def)
  show ?thesis
    by (simp add: a b initial_filters_def)
qed

section \<open>Risk sizing\<close>

lemma floor_numeral_quotient:
  "\<lfloor>(numeral a :: rat) / numeral b\<rfloor> = numeral a div numeral b"
  using floor_divide_of_int_eq [of "numeral a" "numeral b", where ?'a = rat] by simp

lemma floor_neg_numeral_quotient:
  "\<lfloor>- ((numeral a :: rat) / numeral b)\<rfloor> = (- numeral a) div numeral b"
  using floor_divide_of_int_eq [of "- numeral a" "numeral b", where ?'a = rat] by simp

lemma floor_minus_one_rat: "\<lfloor>- 1 :: rat\<rfloor> = - 1"
  using floor_of_int [of "- 1", where ?'a = rat] by simp

text \<open>Where the risk panel prints its two amounts, they are the formula's allowed loss
  and investment cap, rounded.\<close>

lemma panel_texts_follow_formula:
  assumes "account_size p = Some a" and "a \<noteq> 0"
  shows "risk_pct p = Some r \<Longrightarrow> r \<noteq> 0 \<Longrightarrow>
           allowed_loss_text p = Some (Math_round (sizing_allowed_loss a r))"
    and "cap_pct p = Some c \<Longrightarrow> c \<noteq> 0 \<Longrightarrow>
           max_investment_text p = Some (Math_round (max_investment_by_cap a c))"
  using assms
  by (simp_all add: allowed_loss_text_def max_investment_text_def truthy_number_def nullish_def
      sizing_allowed_loss_def max_investment_by_cap_def)

text \<open>
  Claim C4. For an entry price of 10000, an account of 10000000, a risk fraction of
  0.01, a stop fraction of 0.03 and a cap fraction of 0.10, the sizing computation
  gives an allowed loss of 100000, a stop price of 9700, a risk per share of 300, at
  most 333 shares by risk, an investment cap of 1000000, at most 100 shares by the cap,
  hence 100 shares and an investment of 1000000. The first two conjuncts are the two
  amounts the risk panel of the front end computes for these filters; the others
  evaluate the formula of the spec.
\<close>

theorem risk_sizing_example:
  "allowed_loss_text example_params = Some 100000
   \<and> max_investment_text example_params = Some 1000000
   \<and> sizing_allowed_loss 10000000 (1 / 100) = 100000
   \<and> sizing_stop_price 10000 (3 / 100) = 9700
   \<and> risk_per_share 10000 (3 / 100) = 300
   \<and> max_shares_by_risk 10000 10000000 (1 / 100) (3 / 100) = Some 333
   \<and> max_investment_by_cap 10000000 (1 / 10) = 1000000
   \<and> max_shares_by_cap 10000 10000000 (1 / 10) = 100
   \<and> sizing_max_shares 10000 10000000 (1 / 100) (3 / 100) (1 / 10) = min 333 100
   \<and> sizing_max_shares 10000 10000000 (1 / 100) (3 / 100) (1 / 10) = 100
   \<and> sizing_max_investment 10000 10000000 (1 / 100) (3 / 100) (1 / 10) = 1000000
   \<and> compute 10000 (Some 10000000) (1 / 100) (3 / 100) (1 / 10) =
       Some \<lparr>allowed_loss = 100000, preview_stop_price = 9700,
             preview_max_shares = 100, preview_max_investment = 1000000\<rparr>"
proof -
  have panel: "allowed_loss_text example_params = Some 100000
      \<and> max_investment_text example_params = Some 1000000"
    by (simp add: example_params_def initial_filters_def allowed_loss_text_def
        max_investment_text_def truthy_number_def nullish_def Math_round_def
        floor_numeral_quotient)
  have steps: "sizing_allowed_loss 10000000 (1 / 100) = 100000
      \<and> sizing_stop_price 10000 (3 / 100) = 9700
      \<and> risk_per_share 10000 (3 / 100) = 300
      \<and> max_investment_by_cap 10000000 (1 / 10) = 1000000"
    by (simp add: sizing_allowed_loss_def sizing_stop_price_def risk_per_share_def
        max_investment_by_cap_def)
  have by_risk: "max_shares_by_risk 10000 10000000 (1 / 100) (3 / 100) = Some 333"
    by (simp add: max_shares_by_risk_def sizing_allowed_loss_def risk_per_share_def
        floor_numeral_quotient)
  have by_cap: "max_shares_by_cap 10000 10000000 (1 / 10) = 100"
    by (simp add: max_shares_by_cap_def max_investment_by_cap_def)
  have shares: "sizing_max_shares 10000 10000000 (1 / 100) (3 / 100) (1 / 10) = 100"
    unfolding sizing_max_shares_def by_risk by_cap by simp
  have invest: "sizing_max_investment 10000 10000000 (1 / 100) (3 / 100) (1 / 10) = 1000000"
    unfolding sizing_max_investment_def shares by simp
  have preview: "compute 10000 (Some 10000000) (1 / 100) (3 / 100) (1 / 10) =
       Some \<lparr>allowed_loss = 100000, preview_stop_price = 9700,
             preview_max_shares = 100, preview_max_investment = 1000000\<rparr>"
    using steps shares invest by (simp add: compute_def)
  from panel steps by_risk by_cap shares invest preview show ?thesis by simp
qed

section \<open>Fetching the ranked list\<close>

lemma getTop10_settle_ok: "getTop10_settle (Response True (Some response)) = Inr response"
  by (simp add: getTop10_settle_def settle_json_def)

lemma getTop10_settle_failures:
  "getTop10_settle Network_failure = Inl TypeError"
  "getTop10_settle (Response False body) = Inl (Error ''Failed to fetch top 10'')"
  "getTop10_settle (Response True None) = Inl SyntaxError"
  by (simp_all add: getTop10_settle_def settle_json_def)

lemma fetchTop10_resume_Inr: "\<exists>t. fetchTop10_resume r s = Inr t"
  by (simp add: fetchTop10_resume_def split: sum.splits)

lemma fetchTop10_resume_failure:
  "getTop10_settle r = Inl e \<Longrightarrow>
   fetchTop10_resume r s =
     Inr (s\<lparr>error := Some fetch_failed_message, top10 := [], loading := False\<rparr>)"
  by (simp add: fetchTop10_resume_def)

lemma fetchTop10_resume_success:
  "getTop10_settle r = Inr response \<Longrightarrow>
   fetchTop10_resume r s =
     Inr (s\<lparr>top10 := resp_items response, asof := resp_asof response, loading := False\<rparr>)"
  by (simp add: fetchTop10_resume_def)

lemma fetchTop10_resume_frame:
  "fetchTop10_resume r s = Inr t \<Longrightarrow>
   filters_ref t = filters_ref s \<and> heap_next t = heap_next s \<and> requests t = requests s
   \<and> in_flight t = in_flight s \<and> filters t = filters s"
  by (cases "getTop10_settle r") (auto simp: fetchTop10_resume_def)

lemma settled_failure:
  "getTop10_settle r = Inl e \<Longrightarrow> i \<in> set (in_flight s) \<Longrightarrow>
   Home_step s (Top10_settled i r) =
     s\<lparr>in_flight := remove1 i (in_flight s), error := Some fetch_failed_message,
       top10 := [], loading := False\<rparr>"
  by (simp add: fetchTop10_resume_failure)

lemma settled_success:
  "i \<in> set (in_flight s) \<Longrightarrow>
   Home_step s (Top10_settled i (Response True (Some response))) =
     s\<lparr>in_flight := remove1 i (in_flight s), top10 := resp_items response,
       asof := resp_asof response, loading := False\<rparr>"
  by (simp add: fetchTop10_resume_success [OF getTop10_settle_ok])

lemma Home_mounted_eq:
  "Home_mounted =
    \<lparr>filters = initial_filters, filters_ref = 0, top10 = [], asof = [], loading = True,
     selectedQuote = None, error = None, heap_next = 1, requests = [initial_filters],
     in_flight = [0]\<rparr>"
  by (simp add: Home_mounted_def Home_initial_def fetchTop10_call_def)

lemma Home_run_snoc: "Home_run (evs @ [ev]) = Home_step (Home_run evs) ev"
  by (simp add: Home_run_def)

subsection \<open>Every change of the filters sends a request\<close>

lemma Home_step_wf: "wf_refs s \<Longrightarrow> wf_refs (Home_step s ev)"
proof (cases ev)
  case (Filter_change u)
  then show "wf_refs s \<Longrightarrow> ?thesis"
    by (simp add: wf_refs_def handleChange_def setFilters_def fetchTop10_call_def)
next
  case Refresh
  then show "wf_refs s \<Longrightarrow> ?thesis"
    by (simp add: wf_refs_def fetchTop10_call_def)
next
  case (Top10_settled i r)
  obtain t where t: "fetchTop10_resume r (s\<lparr>in_flight := remove1 i (in_flight s)\<rparr>) = Inr t"
    using fetchTop10_resume_Inr by blast
  show "wf_refs s \<Longrightarrow> ?thesis"
    using Top10_settled t fetchTop10_resume_frame [OF t] by (simp add: wf_refs_def)
next
  case (Quote_settled r)
  then show "wf_refs s \<Longrightarrow> ?thesis"
    by (simp add: wf_refs_def handleSymbolSelect_resume_def split: sum.splits)
qed

lemma Home_run_wf: "wf_refs (Home_run evs)"
proof (induction evs rule: rev_induct)
  case Nil
  show ?case
    by (simp add: Home_run_def Home_mounted_eq wf_refs_def)
next
  case (snoc ev evs)
  then show ?case
    by (simp add: Home_run_snoc Home_step_wf)
qed

text \<open>The object of the spread is never the one held, so the update is never dropped.\<close>

lemma handleChange_requests:
  "wf_refs s \<Longrightarrow>
   requests (handleChange u s) = requests s @ [spread_with (filters s) u]
   \<and> filters (handleChange u s) = spread_with (filters s) u
   \<and> loading (handleChange u s)"
  by (simp add: wf_refs_def handleChange_def setFilters_def fetchTop10_call_def)

text \<open>
  Claim C3 asks for one request when two consecutive changes of the filters derive the
  same query. The page keeps no record of the last query: typing the same account
  size twice after mounting leaves three requests, the last two for equal filters.
\<close>

theorem same_query_twice_counterexample:
  "requests (Home_run [Filter_change account_typed, Filter_change account_typed]) =
     [initial_filters, example_params, example_params]"
  by (simp add: Home_run_def Home_mounted_eq fetchTop10_call_def handleChange_def
      setFilters_def account_typed_def example_params_def)

text \<open>
  Claim C3, amended. In every state the page can reach, a change of the filters made
  through a panel sends exactly one request to the ranked-list service, for the
  changed filters, whether or not they equal the filters of the request before; two
  consecutive changes send two requests.
\<close>

theorem every_filter_change_requests:
  "requests (Home_run (evs @ [Filter_change u])) =
     requests (Home_run evs) @ [spread_with (filters (Home_run evs)) u]
   \<and> requests (Home_run (evs @ [Filter_change u, Filter_change u'])) =
     requests (Home_run evs) @
       [spread_with (filters (Home_run evs)) u,
        spread_with (spread_with (filters (Home_run evs)) u) u']"
proof -
  define s where "s = Home_run evs"
  define s1 where "s1 = Home_step s (Filter_change u)"
  have wf: "wf_refs s"
    unfolding s_def by (rule Home_run_wf)
  have one: "requests s1 = requests s @ [spread_with (filters s) u]"
    and f: "filters s1 = spread_with (filters s) u"
    unfolding s1_def using handleChange_requests [of s u, OF wf] by simp_all
  have wf1: "wf_refs s1"
    unfolding s1_def by (rule Home_step_wf [OF wf])
  have two: "requests (Home_step s1 (Filter_change u')) =
      requests s1 @ [spread_with (filters s1) u']"
    using handleChange_requests [of s1 u', OF wf1] by simp
  have r1: "Home_run (evs @ [Filter_change u]) = s1"
    by (simp add: Home_run_def s1_def s_def)
  have r2: "Home_run (evs @ [Filter_change u, Filter_change u']) =
      Home_step s1 (Filter_change u')"
    by (simp add: Home_run_def s1_def s_def)
  show ?thesis
    unfolding r1 r2 two one f s_def by simp
qed

subsection \<open>The risk columns of the table\<close>

lemma sizing_header:
  "filter is_sizing_column (Top10Table_header sr) =
     (if sr then [Col_stop_price, Col_max_shares, Col_max_investment] else [])"
  by (simp add: Top10Table_header_def is_sizing_column_def)

lemma sizing_row:
  "filter is_sizing_column (map fst (Top10Table_row sr item)) =
     (if sr then [Col_stop_price, Col_max_shares, Col_max_investment] else [])"
  by (simp add: Top10Table_row_def is_sizing_column_def)

lemma concat_replicate_nonempty: "concat (replicate n xs) \<noteq> [] \<longleftrightarrow> n > 0 \<and> xs \<noteq> []"
  by (induction n) auto

text \<open>
  The flag \<^verbatim>\<open>showRisk\<close> holds exactly when the account size is set and positive, and
  the table, when it is rendered (no fetch running, a list with an item), shows the
  three risk columns in its header and in every row exactly when the flag holds.
\<close>

lemma sizing_columns_when_table_shown:
  "showRisk f = (\<exists>a. account_size f = Some a \<and> 0 < a)
   \<and> header_sizing_columns (Top10Table items stamp sr ld) =
       (if sr \<and> \<not> ld \<and> items \<noteq> []
        then [Col_stop_price, Col_max_shares, Col_max_investment] else [])
   \<and> row_sizing_columns (Top10Table items stamp sr ld) =
       (if ld then []
        else replicate (length items)
               (if sr then [Col_stop_price, Col_max_shares, Col_max_investment] else []))
   \<and> sizing_columns_rendered (Top10Table items stamp sr ld) = (sr \<and> \<not> ld \<and> items \<noteq> [])
   \<and> sizing_columns_rendered (Home_table s) =
       (showRisk (filters s) \<and> \<not> loading s \<and> top10 s \<noteq> [])"
proof -
  have flag: "showRisk f = (\<exists>a. account_size f = Some a \<and> 0 < a)"
    by (cases "account_size f") (simp_all add: showRisk_def)
  have hd: "header_sizing_columns (Top10Table items stamp sr ld) =
       (if sr \<and> \<not> ld \<and> items \<noteq> []
        then [Col_stop_price, Col_max_shares, Col_max_investment] else [])"
    by (simp add: Top10Table_def sizing_header)
  have rows: "row_sizing_columns (Top10Table items stamp sr ld) =
       (if ld then []
        else replicate (length items)
               (if sr then [Col_stop_price, Col_max_shares, Col_max_investment] else []))"
    by (simp add: Top10Table_def sizing_row map_replicate_const comp_def)
  have shown: "sizing_columns_rendered (Top10Table xs st sr' ld') = (sr' \<and> \<not> ld' \<and> xs \<noteq> [])"
    for xs st sr' ld'
    by (auto simp: sizing_columns_rendered_def Top10Table_def sizing_header sizing_row
        map_replicate_const comp_def concat_replicate_nonempty)
  have page: "sizing_columns_rendered (Home_table s) =
       (showRisk (filters s) \<and> \<not> loading s \<and> top10 s \<noteq> [])"
    unfolding Home_table_def by (rule shown)
  from flag hd rows shown [of items stamp sr ld] page show ?thesis by blast
qed

text \<open>
  Claim C5 says that the flag is (account size set and positive), that the sizing
  columns are rendered if and only if the flag holds, and that for an absent or
  non-positive account size no sizing preview is produced or displayed. The flag and
  the columns of the table behave so. The risk panel does not: it guards its two
  amounts by the truthiness of the account size, not by \<^verbatim>\<open>> 0\<close> as \<^verbatim>\<open>showRisk\<close> does,
  and its input has no minimum. For an account size of -150 the flag is false and the
  table shows no risk column, yet the panel computes and prints an allowed loss of -1
  and a maximal investment of -15.
\<close>

theorem negative_account_is_previewed:
  "showRisk negative_params = False
   \<and> sizing_columns_rendered (Top10Table [item_A] [] (showRisk negative_params) False) = False
   \<and> allowed_loss_text negative_params = Some (- 1)
   \<and> max_investment_text negative_params = Some (- 15)"
proof -
  have flag: "showRisk negative_params = False"
    by (simp add: negative_params_def showRisk_def)
  have table: "sizing_columns_rendered (Top10Table [item_A] [] False False) = False"
    by (simp add: sizing_columns_rendered_def Top10Table_def sizing_header sizing_row)
  have loss: "allowed_loss_text negative_params = Some (- 1)"
    by (simp add: negative_params_def initial_filters_def allowed_loss_text_def
        truthy_number_def nullish_def Math_round_def floor_minus_one_rat)
  have invest: "max_investment_text negative_params = Some (- 15)"
    by (simp add: negative_params_def initial_filters_def max_investment_text_def
        truthy_number_def nullish_def Math_round_def floor_neg_numeral_quotient)
  from flag table loss invest show ?thesis by simp
qed


subsection \<open>A fetch that fails\<close>

text \<open>
  Claim C6. When the promise of \<^verbatim>\<open>getTop10\<close> rejects (the network or transport fails,
  the status is not a success, or the body does not parse), \<^verbatim>\<open>fetchTop10\<close> catches
  the error: its own promise does not reject, the error message is recorded, the list
  of items is emptied and loading ends. Only that attempt is over: the next trigger
  starts an ordinary attempt, which clears the message, sends a request for the
  current filters, and shows the items of its response when it succeeds.
\<close>

theorem failed_fetch_is_contained:
  assumes "getTop10_settle r = Inl e" and "i \<in> set (in_flight s)"
  shows "(\<exists>t. fetchTop10_resume r s = Inr t)
    \<and> error (Home_step s (Top10_settled i r)) = Some fetch_failed_message
    \<and> top10 (Home_step s (Top10_settled i r)) = []
    \<and> loading (Home_step s (Top10_settled i r)) = False
    \<and> in_flight (Home_step s (Top10_settled i r)) = remove1 i (in_flight s)
    \<and> Home_step (Home_step s (Top10_settled i r)) Refresh =
        (Home_step s (Top10_settled i r))
          \<lparr>loading := True, error := None,
           requests := requests s @ [filters s],
           in_flight := remove1 i (in_flight s) @ [length (requests s)]\<rparr>
    \<and> top10 (Home_step (Home_step (Home_step s (Top10_settled i r)) Refresh)
          (Top10_settled (length (requests s)) (Response True (Some response)))) =
        resp_items response
    \<and> error (Home_step (Home_step (Home_step s (Top10_settled i r)) Refresh)
          (Top10_settled (length (requests s)) (Response True (Some response)))) = None"
proof -
  define s1 where "s1 = Home_step s (Top10_settled i r)"
  have s1: "s1 = s\<lparr>in_flight := remove1 i (in_flight s), error := Some fetch_failed_message,
       top10 := [], loading := False\<rparr>"
    unfolding s1_def by (rule settled_failure [OF assms])
  have contained: "\<exists>t. fetchTop10_resume r s = Inr t"
    by (rule fetchTop10_resume_Inr)
  define s2 where "s2 = Home_step s1 Refresh"
  have s2: "s2 = s1\<lparr>loading := True, error := None, requests := requests s @ [filters s],
           in_flight := remove1 i (in_flight s) @ [length (requests s)]\<rparr>"
    unfolding s2_def by (simp add: s1 fetchTop10_call_def)
  have mem: "length (requests s) \<in> set (in_flight s2)"
    by (simp add: s2)
  define s3 where
    "s3 = Home_step s2 (Top10_settled (length (requests s)) (Response True (Some response)))"
  have s3: "top10 s3 = resp_items response \<and> error s3 = None"
    unfolding s3_def settled_success [OF mem] by (simp add: s2)
  have "(\<exists>t. fetchTop10_resume r s = Inr t)
    \<and> error s1 = Some fetch_failed_message \<and> top10 s1 = [] \<and> loading s1 = False
    \<and> in_flight s1 = remove1 i (in_flight s)
    \<and> s2 = s1\<lparr>loading := True, error := None, requests := requests s @ [filters s],
           in_flight := remove1 i (in_flight s) @ [length (requests s)]\<rparr>
    \<and> top10 s3 = resp_items response \<and> error s3 = None"
    using contained s3 s2 by (simp add: s1)
  then show ?thesis
    unfolding s3_def s2_def s1_def .
qed

text \<open>The first request of the page fails, once on the network and once with an error
  status; a refresh and a good response follow.\<close>

theorem failed_fetch_is_contained_witness:
  "error (Home_step Home_mounted (Top10_settled 0 Network_failure)) = Some fetch_failed_message
   \<and> top10 (Home_step Home_mounted (Top10_settled 0 (Response False None))) = []
   \<and> top10 (Home_step (Home_step (Home_step Home_mounted (Top10_settled 0 Network_failure)) Refresh)
        (Top10_settled 1 (Response True (Some response_A)))) = [item_A]"
proof -
  have a: "getTop10_settle Network_failure = Inl TypeError"
    and b: "getTop10_settle (Response False None) = Inl (Error ''Failed to fetch top 10'')"
    by (simp_all add: getTop10_settle_failures)
  have m: "0 \<in> set (in_flight Home_mounted)" and n: "length (requests Home_mounted) = 1"
    by (simp_all add: Home_mounted_eq)
  note net = failed_fetch_is_contained [OF a m, of response_A]
  note status = failed_fetch_is_contained [OF b m, of response_A]
  have recorded:
    "error (Home_step Home_mounted (Top10_settled 0 Network_failure)) = Some fetch_failed_message"
    using net by (rule conjunct2 [THEN conjunct1])
  have emptied: "top10 (Home_step Home_mounted (Top10_settled 0 (Response False None))) = []"
    using status by (rule conjunct2 [THEN conjunct2, THEN conjunct1])
  have again:
    "top10 (Home_step (Home_step (Home_step Home_mounted (Top10_settled 0 Network_failure)) Refresh)
        (Top10_settled (length (requests Home_mounted)) (Response True (Some response_A)))) =
     resp_items response_A"
    using net by blast
  have items: "resp_items response_A = [item_A]"
    by (simp add: response_A_def)
  from recorded emptied again [unfolded n items] show ?thesis by blast
qed

subsection \<open>The time stamp survives a failure\<close>

lemma unsuccessful_settle:
  "\<not> successful (Top10_settled i r) \<Longrightarrow> \<exists>e. getTop10_settle r = Inl e"
  by (cases r) (auto simp: successful_def getTop10_settle_def settle_json_def)

lemma failure_is_unsuccessful:
  "getTop10_settle r = Inl e \<Longrightarrow> \<not> successful (Top10_settled i r)"
  by (cases r)
    (auto simp: successful_def getTop10_settle_def settle_json_def split: option.splits)

lemma unsuccessful_step_asof: "\<not> successful ev \<Longrightarrow> asof (Home_step s ev) = asof s"
proof (cases ev)
  case (Filter_change u)
  then show ?thesis
    by (simp add: handleChange_def setFilters_def fetchTop10_call_def)
next
  case Refresh
  then show ?thesis
    by (simp add: fetchTop10_call_def)
next
  case (Top10_settled i r)
  assume "\<not> successful ev"
  with Top10_settled obtain e where "getTop10_settle r = Inl e"
    using unsuccessful_settle by blast
  with Top10_settled show ?thesis
    by (simp add: fetchTop10_resume_failure)
next
  case (Quote_settled r)
  then show ?thesis
    by (simp add: handleSymbolSelect_resume_def split: sum.splits)
qed

lemma unsuccessful_run_asof:
  "list_all (\<lambda>ev. \<not> successful ev) evs \<Longrightarrow> asof (foldl Home_step s evs) = asof s"
  by (induction evs arbitrary: s) (simp_all add: unsuccessful_step_asof)

text \<open>
  Claim C10. When a ranked-list fetch fails, the resumed \<^verbatim>\<open>fetchTop10\<close> writes the
  error, the items and the loading flag and nothing else; in particular \<^verbatim>\<open>asof\<close> keeps
  its value. Through any run of events without a successful response, \<^verbatim>\<open>asof\<close> stays
  the time stamp of the last successful fetch.
\<close>

theorem failed_fetch_keeps_asof:
  assumes "getTop10_settle r = Inl e"
  shows "fetchTop10_resume r s =
           Inr (s\<lparr>error := Some fetch_failed_message, top10 := [], loading := False\<rparr>)
    \<and> asof (Home_step s (Top10_settled i r)) = asof s
    \<and> (j \<in> set (in_flight s) \<and> list_all (\<lambda>ev. \<not> successful ev) evs \<longrightarrow>
        asof (foldl Home_step
               (Home_step s (Top10_settled j (Response True (Some response)))) evs) =
          resp_asof response)"
proof -
  have frame: "fetchTop10_resume r s =
      Inr (s\<lparr>error := Some fetch_failed_message, top10 := [], loading := False\<rparr>)"
    using assms by (rule fetchTop10_resume_failure)
  have step: "asof (Home_step s (Top10_settled i r)) = asof s"
    by (rule unsuccessful_step_asof [OF failure_is_unsuccessful [OF assms]])
  have run: "asof (foldl Home_step
               (Home_step s (Top10_settled j (Response True (Some response)))) evs) =
          resp_asof response"
    if "j \<in> set (in_flight s)" and "list_all (\<lambda>ev. \<not> successful ev) evs"
    using that by (simp add: unsuccessful_run_asof settled_success del: Home_step.simps)
  from frame step run show ?thesis by blast
qed

text \<open>The mount request succeeds; a refresh fails on the network and a change of the
  market filter fails with an error status.\<close>

theorem failed_fetch_keeps_asof_witness:
  "asof (Home_step Home_mounted (Top10_settled 0 Network_failure)) = asof Home_mounted
   \<and> asof (foldl Home_step (Home_step Home_mounted (Top10_settled 0 (Response True (Some response_A))))
        [Refresh, Top10_settled 1 Network_failure,
         Filter_change (Set_market (Some Market_KOSPI)), Top10_settled 2 (Response False None)]) =
      ''2024-01-01T09:00:00''"
proof -
  have a: "getTop10_settle Network_failure = Inl TypeError"
    by (simp add: getTop10_settle_failures)
  have m: "0 \<in> set (in_flight Home_mounted)"
    by (simp add: Home_mounted_eq)
  have u: "list_all (\<lambda>ev. \<not> successful ev)
      [Refresh, Top10_settled 1 Network_failure,
       Filter_change (Set_market (Some Market_KOSPI)), Top10_settled 2 (Response False None)]"
    by (simp add: successful_def)
  note kept = failed_fetch_keeps_asof [OF a, of Home_mounted 0 0
      "[Refresh, Top10_settled 1 Network_failure,
        Filter_change (Set_market (Some Market_KOSPI)), Top10_settled 2 (Response False None)]"
      response_A]
  have one: "asof (Home_step Home_mounted (Top10_settled 0 Network_failure)) = asof Home_mounted"
    using kept by (rule conjunct2 [THEN conjunct1])
  have run: "asof (foldl Home_step
        (Home_step Home_mounted (Top10_settled 0 (Response True (Some response_A))))
        [Refresh, Top10_settled 1 Network_failure,
         Filter_change (Set_market (Some Market_KOSPI)), Top10_settled 2 (Response False None)]) =
      resp_asof response_A"
    using kept m u by blast
  have stamp: "resp_asof response_A = ''2024-01-01T09:00:00''"
    by (simp add: response_A_def)
  from one run [unfolded stamp] show ?thesis by blast
qed

section \<open>The search box\<close>

lemma getSymbols_settle_ok: "getSymbols_settle (Response True (Some symbols)) = Inr symbols"
  by (simp add: getSymbols_settle_def settle_json_def)

lemma timeout_resume_success:
  "timeout_resume (Response True (Some symbols)) s =
     Inr (s\<lparr>results := take 10 symbols, isOpen := True, searching := False\<rparr>)"
  by (simp add: timeout_resume_def getSymbols_settle_ok)

lemma symbols_settled_success:
  "j \<in> set (lookups_in_flight s) \<Longrightarrow>
   SearchBar_step s (Symbols_settled j (Response True (Some symbols))) =
     s\<lparr>lookups_in_flight := remove1 j (lookups_in_flight s), results := take 10 symbols,
       isOpen := True, searching := False\<rparr>"
  by (simp add: timeout_resume_success)

lemma timeout_resume_Inr: "\<exists>t. timeout_resume r s = Inr t"
  by (simp add: timeout_resume_def split: sum.splits)

lemma timeout_resume_frame:
  "timeout_resume r s = Inr t \<Longrightarrow> timeouts t = timeouts s \<and> cleanup t = cleanup s"
  by (cases "getSymbols_settle r") (auto simp: timeout_resume_def)

lemma SearchBar_mounted_eq: "SearchBar_mounted = SearchBar_initial"
  by (simp add: SearchBar_mounted_def SearchBar_initial_def query_effect_def)

lemma SearchBar_run_snoc: "SearchBar_run (evs @ [ev]) = SearchBar_step (SearchBar_run evs) ev"
  by (simp add: SearchBar_run_def)

lemma SearchBar_run_append:
  "SearchBar_run (evs @ later) = foldl SearchBar_step (SearchBar_run evs) later"
  by (simp add: SearchBar_run_def)

subsection \<open>Pending timeouts\<close>

text \<open>The callbacks that fire touch neither the pending timeouts nor the cleanup, and
  each sends one lookup.\<close>

lemma fired_frame:
  "timeouts (foldl (\<lambda>s' (id, left, q). timeout_call q s') s due) = timeouts s
   \<and> cleanup (foldl (\<lambda>s' (id, left, q). timeout_call q s') s due) = cleanup s
   \<and> lookups (foldl (\<lambda>s' (id, left, q). timeout_call q s') s due) =
       lookups s @ map (\<lambda>(id, left, q). q) due"
  by (induction due arbitrary: s) (auto simp: timeout_call_def)

lemma elapse_frame:
  "timeouts (elapse d s) =
     map (\<lambda>(id, left, q). (id, left - d, q)) (filter (\<lambda>(id, left, q). \<not> left \<le> d) (timeouts s))
   \<and> cleanup (elapse d s) = cleanup s"
  by (simp add: elapse_def Let_def fired_frame)

lemma elapse_idle: "timeouts s = [] \<Longrightarrow> lookups (elapse d s) = lookups s"
  by (simp add: elapse_def)

lemma elapse_waiting:
  "timeouts s = [(t, left, q)] \<Longrightarrow> d < left \<Longrightarrow> elapse d s = s\<lparr>timeouts := [(t, left - d, q)]\<rparr>"
  by (simp add: elapse_def)

lemma elapse_due:
  "timeouts s = [(t, left, q)] \<Longrightarrow> left \<le> d \<Longrightarrow> elapse d s = timeout_call q (s\<lparr>timeouts := []\<rparr>)"
  by (simp add: elapse_def)

text \<open>Timeouts that nobody clears all fire, in the order in which they fall due.\<close>

lemma uncleared_timeouts_all_fire:
  "lookups (elapse 300 (s\<lparr>timeouts := [(0, 80, ''A''), (1, 180, ''AB''), (2, 300, ''ABC'')]\<rparr>)) =
     lookups s @ [''A'', ''AB'', ''ABC'']"
  by (simp add: elapse_def timeout_call_def)

lemma cleanup_clears_all_cong:
  "timeouts t = timeouts s \<Longrightarrow> cleanup t = cleanup s \<Longrightarrow>
   cleanup_clears_all t = cleanup_clears_all s"
  by (cases "cleanup s") (simp_all add: cleanup_clears_all_def)

text \<open>With every pending timeout cleared by the cleanup, a changed query leaves exactly
  the timeout of the new text, or none when the text is empty.\<close>

lemma setQuery_nonempty:
  assumes "cleanup_clears_all s" and "w \<noteq> query s" and "w \<noteq> []"
  shows "setQuery w s =
     s\<lparr>query := w, timeouts := [(next_timeout s, 300, w)],
       next_timeout := Suc (next_timeout s), cleanup := Some (next_timeout s)\<rparr>"
proof (cases "cleanup s")
  case None
  with assms show ?thesis
    by (simp add: cleanup_clears_all_def setQuery_def query_effect_def
        query_effect_cleanup_def setTimeout_def)
next
  case (Some t)
  with assms show ?thesis
    by (simp add: cleanup_clears_all_def setQuery_def query_effect_def
        query_effect_cleanup_def setTimeout_def clearTimeout_def)
qed

lemma setQuery_empty:
  assumes "cleanup_clears_all s" and "query s \<noteq> []"
  shows "setQuery [] s = s\<lparr>query := [], timeouts := [], results := [], cleanup := None\<rparr>"
proof (cases "cleanup s")
  case None
  with assms show ?thesis
    by (simp add: cleanup_clears_all_def setQuery_def query_effect_def query_effect_cleanup_def)
next
  case (Some t)
  with assms show ?thesis
    by (simp add: cleanup_clears_all_def setQuery_def query_effect_def
        query_effect_cleanup_def clearTimeout_def)
qed

lemma setQuery_keeps_clearing:
  assumes "cleanup_clears_all s"
  shows "cleanup_clears_all (setQuery w s)"
proof (cases "w = query s")
  case True
  with assms show ?thesis by (simp add: setQuery_def)
next
  case False
  show ?thesis
  proof (cases "w = []")
    case True
    with False have "query s \<noteq> []" by simp
    from setQuery_empty [OF assms this] True show ?thesis
      by (simp add: cleanup_clears_all_def)
  next
    case nonempty: False
    from setQuery_nonempty [OF assms False nonempty] show ?thesis
      by (simp add: cleanup_clears_all_def)
  qed
qed

lemma elapse_keeps_clearing:
  assumes "cleanup_clears_all s"
  shows "cleanup_clears_all (elapse d s)"
proof (cases "cleanup s")
  case None
  with assms show ?thesis
    by (simp add: cleanup_clears_all_def elapse_frame)
next
  case (Some t)
  with assms have "\<forall>x \<in> set (timeouts s). fst x = t"
    by (auto simp: cleanup_clears_all_def filter_empty_conv)
  then have "filter (\<lambda>(id, left, q). id \<noteq> t)
      (map (\<lambda>(id, left, q). (id, left - d, q))
        (filter (\<lambda>(id, left, q). \<not> left \<le> d) (timeouts s))) = []"
    by (auto simp: filter_empty_conv)
  with Some show ?thesis
    by (simp add: cleanup_clears_all_def elapse_frame)
qed

lemma step_keeps_clearing:
  assumes "cleanup_clears_all s"
  shows "cleanup_clears_all (SearchBar_step s ev)"
proof (cases ev)
  case (Input w)
  with assms show ?thesis by (simp add: setQuery_keeps_clearing)
next
  case (Elapse d)
  with assms show ?thesis by (simp add: elapse_keeps_clearing)
next
  case (Symbols_settled i r)
  obtain t where t: "timeout_resume r (s\<lparr>lookups_in_flight := remove1 i (lookups_in_flight s)\<rparr>) = Inr t"
    using timeout_resume_Inr by blast
  have "cleanup_clears_all t = cleanup_clears_all s"
    by (rule cleanup_clears_all_cong) (simp_all add: timeout_resume_frame [OF t])
  with assms Symbols_settled t show ?thesis by simp
next
  case (Select symbol)
  have "cleanup_clears_all (handleSelect symbol s) =
      cleanup_clears_all (setQuery (sym_name symbol @ '' ('' @ sym_code symbol @ '')'') s)"
    by (rule cleanup_clears_all_cong) (simp_all add: handleSelect_def)
  with assms Select show ?thesis by (simp add: setQuery_keeps_clearing)
next
  case Focus
  have "cleanup_clears_all (onFocus s) = cleanup_clears_all s"
    by (rule cleanup_clears_all_cong) (simp_all add: onFocus_def)
  with assms Focus show ?thesis by simp
qed

lemma run_keeps_clearing: "cleanup_clears_all (SearchBar_run evs)"
proof (induction evs rule: rev_induct)
  case Nil
  show ?case
    by (simp add: SearchBar_run_def SearchBar_mounted_eq SearchBar_initial_def
        cleanup_clears_all_def)
next
  case (snoc ev evs)
  then show ?case
    by (simp add: SearchBar_run_snoc step_keeps_clearing)
qed

subsection \<open>Debounce\<close>

text \<open>While the user keeps typing, the one pending timeout belongs to the latest input:
  each new input clears the timeout of the input before it, and nothing is sent.\<close>

lemma typing_keeps_waiting:
  assumes "timeouts s = [(t, 300, query s)]" and "cleanup s = Some t"
      and "list_all (\<lambda>(d, w). d < 300 \<and> w \<noteq> []) rest"
      and "distinct_adj (query s # map snd rest)"
  shows "(\<exists>t'. timeouts (foldl SearchBar_step s (typing rest)) =
              [(t', 300, last (query s # map snd rest))])
       \<and> lookups (foldl SearchBar_step s (typing rest)) = lookups s"
  using assms
proof (induction rest arbitrary: s t)
  case Nil
  then show ?case by simp
next
  case (Cons p rest)
  obtain d w where p: "p = (d, w)" by (cases p)
  from Cons.prems p have d: "d < 300" and w: "w \<noteq> []" and change: "w \<noteq> query s"
    and rest: "list_all (\<lambda>(d, w). d < 300 \<and> w \<noteq> []) rest"
    and adj: "distinct_adj (w # map snd rest)"
    by auto
  define s1 where "s1 = elapse d s"
  have s1: "s1 = s\<lparr>timeouts := [(t, 300 - d, query s)]\<rparr>"
    unfolding s1_def using Cons.prems(1) d by (simp add: elapse_waiting)
  have clears: "cleanup_clears_all s1"
    using Cons.prems(2) by (simp add: s1 cleanup_clears_all_def)
  have change1: "w \<noteq> query s1"
    using change by (simp add: s1)
  define s2 where "s2 = setQuery w s1"
  have s2: "s2 = s1\<lparr>query := w, timeouts := [(next_timeout s1, 300, w)],
       next_timeout := Suc (next_timeout s1), cleanup := Some (next_timeout s1)\<rparr>"
    unfolding s2_def by (rule setQuery_nonempty [OF clears change1 w])
  have t2: "timeouts s2 = [(next_timeout s1, 300, query s2)]"
    and c2: "cleanup s2 = Some (next_timeout s1)"
    and l2: "lookups s2 = lookups s"
    and q2: "query s2 = w"
    by (simp_all add: s2 s1)
  have adj2: "distinct_adj (query s2 # map snd rest)"
    using adj by (simp add: q2)
  have ih:
    "(\<exists>t'. timeouts (foldl SearchBar_step s2 (typing rest)) =
              [(t', 300, last (query s2 # map snd rest))])
       \<and> lookups (foldl SearchBar_step s2 (typing rest)) = lookups s2"
    by (rule Cons.IH [OF t2 c2 rest adj2])
  have run: "foldl SearchBar_step s (typing (p # rest)) = foldl SearchBar_step s2 (typing rest)"
    by (simp add: p s2_def s1_def)
  have lst: "last (query s # map snd (p # rest)) = last (query s2 # map snd rest)"
    by (simp add: p q2)
  show ?case
    unfolding run lst using ih by (simp add: l2)
qed

text \<open>
  Claim C8. Take any state the search box can reach and a sequence of changes of the
  query text: a first text, then further texts, each non-empty, each different from the
  text before it and each typed less than 300 ms after it. No lookup is sent while the
  typing goes on, and once 300 ms have passed after the last change exactly one lookup
  has been sent, for the last text; waiting longer sends no other.
\<close>

theorem debounce_one_lookup:
  assumes "text0 \<noteq> query (SearchBar_run evs)" and "text0 \<noteq> []"
      and "list_all (\<lambda>(d, w). d < 300 \<and> w \<noteq> []) rest"
      and "distinct_adj (text0 # map snd rest)"
      and "300 \<le> pause"
  shows "lookups (SearchBar_run (evs @ Input text0 # typing rest)) = lookups (SearchBar_run evs)
       \<and> lookups (SearchBar_run (evs @ Input text0 # typing rest @ [Elapse pause])) =
           lookups (SearchBar_run evs) @ [last (text0 # map snd rest)]
       \<and> lookups (SearchBar_run
            (evs @ Input text0 # typing rest @ [Elapse pause, Elapse longer])) =
           lookups (SearchBar_run evs) @ [last (text0 # map snd rest)]"
proof -
  define s where "s = SearchBar_run evs"
  have clears: "cleanup_clears_all s"
    unfolding s_def by (rule run_keeps_clearing)
  have fresh: "text0 \<noteq> query s"
    unfolding s_def by (rule assms(1))
  define s1 where "s1 = setQuery text0 s"
  have s1: "s1 = s\<lparr>query := text0, timeouts := [(next_timeout s, 300, text0)],
       next_timeout := Suc (next_timeout s), cleanup := Some (next_timeout s)\<rparr>"
    unfolding s1_def by (rule setQuery_nonempty [OF clears fresh assms(2)])
  have t1: "timeouts s1 = [(next_timeout s, 300, query s1)]"
    and c1: "cleanup s1 = Some (next_timeout s)"
    and q1: "query s1 = text0" and l1: "lookups s1 = lookups s"
    by (simp_all add: s1)
  have adj1: "distinct_adj (query s1 # map snd rest)"
    using assms(4) by (simp add: q1)
  define s2 where "s2 = foldl SearchBar_step s1 (typing rest)"
  obtain t' where t2: "timeouts s2 = [(t', 300, last (text0 # map snd rest))]"
    and l2: "lookups s2 = lookups s"
    using typing_keeps_waiting [OF t1 c1 assms(3) adj1] unfolding s2_def q1 l1 by blast
  have a: "SearchBar_run (evs @ Input text0 # typing rest) = s2"
    by (simp add: SearchBar_run_append s2_def s1_def s_def)
  have b: "SearchBar_run (evs @ Input text0 # typing rest @ [Elapse pause]) = elapse pause s2"
    by (simp add: SearchBar_run_append s2_def s1_def s_def)
  have c: "SearchBar_run (evs @ Input text0 # typing rest @ [Elapse pause, Elapse longer]) =
      elapse longer (elapse pause s2)"
    by (simp add: SearchBar_run_append s2_def s1_def s_def)
  have fired: "elapse pause s2 =
      timeout_call (last (text0 # map snd rest)) (s2\<lparr>timeouts := []\<rparr>)"
    using t2 assms(5) by (simp add: elapse_due)
  have sent: "lookups (elapse pause s2) = lookups s @ [last (text0 # map snd rest)]"
    unfolding fired by (simp add: timeout_call_def l2)
  have none_left: "timeouts (elapse pause s2) = []"
    unfolding fired by (simp add: timeout_call_def)
  have idle: "lookups (elapse longer (elapse pause s2)) = lookups (elapse pause s2)"
    by (rule elapse_idle [OF none_left])
  show ?thesis
    unfolding a b c idle sent l2 s_def by simp
qed

text \<open>In a freshly mounted search box, A is typed, then B after 100 ms and C after
  another 120 ms: one lookup, for ABC.\<close>

theorem debounce_one_lookup_witness:
  "lookups (SearchBar_run (Input ''A'' # typing [(100, ''AB''), (120, ''ABC'')])) = []
   \<and> lookups (SearchBar_run
        (Input ''A'' # typing [(100, ''AB''), (120, ''ABC'')] @ [Elapse 300])) = [''ABC'']"
proof -
  have m: "query (SearchBar_run []) = []" "lookups (SearchBar_run []) = []"
    by (simp_all add: SearchBar_run_def SearchBar_mounted_eq SearchBar_initial_def)
  have fresh: "''A'' \<noteq> query (SearchBar_run [])"
    by (simp add: m)
  have nonempty: "''A'' \<noteq> []"
    by simp
  have quick: "list_all (\<lambda>(d, w). d < 300 \<and> w \<noteq> []) [(100::nat, ''AB''), (120, ''ABC'')]"
    by simp
  have changes: "distinct_adj (''A'' # map snd [(100::nat, ''AB''), (120, ''ABC'')])"
    by simp
  have pause: "(300::nat) \<le> 300"
    by simp
  note one = debounce_one_lookup [OF fresh nonempty quick changes pause, of 0]
  have typed: "lookups (SearchBar_run ([] @ Input ''A'' # typing [(100, ''AB''), (120, ''ABC'')])) =
      lookups (SearchBar_run [])"
    using one by (rule conjunct1)
  have settled: "lookups (SearchBar_run
      ([] @ Input ''A'' # typing [(100, ''AB''), (120, ''ABC'')] @ [Elapse 300])) =
      lookups (SearchBar_run []) @ [last (''A'' # map snd [(100::nat, ''AB''), (120, ''ABC'')])]"
    using one by (rule conjunct2 [THEN conjunct1])
  have lst: "lookups (SearchBar_run []) @ [last (''A'' # map snd [(100::nat, ''AB''), (120, ''ABC'')])] =
      [''ABC'']"
    by (simp add: m)
  have nil: "[] @ xs = xs" for xs :: "SearchBar_event list"
    by simp
  from typed [unfolded nil m(2)] settled [unfolded lst nil] show ?thesis
    by blast
qed

subsection \<open>Clearing the input\<close>

lemma opened_state:
  "SearchBar_run opened_trace =
     \<lparr>query = ''A'', results = [symbol_A], isOpen = True, searching = False, timeouts = [],
      next_timeout = 1, cleanup = Some 0, lookups = [''A''], lookups_in_flight = []\<rparr>"
  by (simp add: SearchBar_run_def opened_trace_def SearchBar_mounted_eq SearchBar_initial_def
      query_effect_def query_effect_cleanup_def setQuery_def setTimeout_def elapse_def
      timeout_call_def timeout_resume_success)

text \<open>
  Claim C9 has the list closed when the input is cleared. The effect only empties the
  results; \<^verbatim>\<open>setIsOpen(false)\<close> is not called. After a lookup has opened the list,
  clearing the input leaves \<^verbatim>\<open>isOpen\<close> true.
\<close>

theorem cleared_input_stays_open_counterexample:
  "isOpen (SearchBar_run opened_trace)
   \<and> query (SearchBar_run (opened_trace @ [Input []])) = []
   \<and> results (SearchBar_run (opened_trace @ [Input []])) = []
   \<and> isOpen (SearchBar_run (opened_trace @ [Input []]))"
  by (simp add: SearchBar_run_snoc opened_state setQuery_def query_effect_def
      query_effect_cleanup_def clearTimeout_def)

lemma cleared_in_any_state:
  assumes "query s \<noteq> []"
  shows "results (setQuery [] s) = [] \<and> lookups (setQuery [] s) = lookups s
       \<and> isOpen (setQuery [] s) = isOpen s \<and> cleanup (setQuery [] s) = None
       \<and> timeouts (setQuery [] s) = timeouts (query_effect_cleanup s)"
  using assms
  by (cases "cleanup s")
    (simp_all add: setQuery_def query_effect_def query_effect_cleanup_def clearTimeout_def)

text \<open>
  Claim C9, amended. When the text of the query becomes empty, the search box empties
  the result list at once, which takes the list off the page (it is rendered only when
  open and not empty), clears the timeout its effect had set, and sends no request.
  The flag \<^verbatim>\<open>isOpen\<close> keeps its value. This holds in any state \<open>s\<close> with a
  non-empty query. In every state the search box can reach, moreover, no timeout is
  left pending afterwards and no request is sent later either.
\<close>

theorem cleared_input_empties_results:
  assumes "query s \<noteq> []" and "query (SearchBar_run evs) \<noteq> []"
  shows "results (SearchBar_step s (Input [])) = []
       \<and> list_shown (SearchBar_step s (Input [])) = False
       \<and> lookups (SearchBar_step s (Input [])) = lookups s
       \<and> isOpen (SearchBar_step s (Input [])) = isOpen s
       \<and> timeouts (SearchBar_step s (Input [])) =
           (case cleanup s of
              None \<Rightarrow> timeouts s
            | Some t \<Rightarrow> filter (\<lambda>(id, left, q). id \<noteq> t) (timeouts s))
       \<and> SearchBar_run (evs @ [Input []]) =
           (SearchBar_run evs)\<lparr>query := [], timeouts := [], results := [], cleanup := None\<rparr>
       \<and> timeouts (SearchBar_run (evs @ [Input []])) = []
       \<and> lookups (SearchBar_run (evs @ [Input [], Elapse d])) = lookups (SearchBar_run evs)"
proof -
  note any = cleared_in_any_state [OF assms(1)]
  have pending: "timeouts (query_effect_cleanup s) =
      (case cleanup s of
         None \<Rightarrow> timeouts s
       | Some t \<Rightarrow> filter (\<lambda>(id, left, q). id \<noteq> t) (timeouts s))"
    by (simp add: query_effect_cleanup_def clearTimeout_def split: option.split)
  have first: "results (SearchBar_step s (Input [])) = []
       \<and> list_shown (SearchBar_step s (Input [])) = False
       \<and> lookups (SearchBar_step s (Input [])) = lookups s
       \<and> isOpen (SearchBar_step s (Input [])) = isOpen s
       \<and> timeouts (SearchBar_step s (Input [])) =
           (case cleanup s of
              None \<Rightarrow> timeouts s
            | Some t \<Rightarrow> filter (\<lambda>(id, left, q). id \<noteq> t) (timeouts s))"
    using any pending by (simp add: list_shown_def)
  define r where "r = SearchBar_run evs"
  define r' where "r' = SearchBar_run (evs @ [Input []])"
  have cleared: "r' = r\<lparr>query := [], timeouts := [], results := [], cleanup := None\<rparr>"
    unfolding r'_def SearchBar_run_snoc r_def
    using setQuery_empty [OF run_keeps_clearing assms(2)] by simp
  have idle: "timeouts r' = []"
    by (simp add: cleared)
  have "SearchBar_run (evs @ [Input [], Elapse d]) = elapse d r'"
    by (simp add: SearchBar_run_append r'_def)
  then have later: "lookups (SearchBar_run (evs @ [Input [], Elapse d])) = lookups r"
    using elapse_idle [OF idle, of d] by (simp add: cleared)
  have "r' = r\<lparr>query := [], timeouts := [], results := [], cleanup := None\<rparr>
       \<and> timeouts r' = []
       \<and> lookups (SearchBar_run (evs @ [Input [], Elapse d])) = lookups r"
    using cleared later idle by simp
  then have second: "SearchBar_run (evs @ [Input []]) =
           (SearchBar_run evs)\<lparr>query := [], timeouts := [], results := [], cleanup := None\<rparr>
       \<and> timeouts (SearchBar_run (evs @ [Input []])) = []
       \<and> lookups (SearchBar_run (evs @ [Input [], Elapse d])) = lookups (SearchBar_run evs)"
    unfolding r'_def r_def .
  from first second show ?thesis by blast
qed

text \<open>After a lookup for A has opened the list, the input is cleared; and in a box
  where AB has just been typed after A, clearing the input removes the timeout of AB.\<close>

theorem cleared_input_empties_results_witness:
  "results (SearchBar_step (SearchBar_run opened_trace) (Input [])) = []
   \<and> list_shown (SearchBar_step (SearchBar_run opened_trace) (Input [])) = False
   \<and> timeouts (SearchBar_run ([Input ''A'', Elapse 100, Input ''AB''] @ [Input []])) = []
   \<and> lookups (SearchBar_run ([Input ''A'', Elapse 100, Input ''AB''] @ [Input [], Elapse 300])) =
       lookups (SearchBar_run [Input ''A'', Elapse 100, Input ''AB''])"
proof -
  have q: "query (SearchBar_run opened_trace) \<noteq> []"
    by (simp add: opened_state)
  have typed: "query (SearchBar_run [Input ''A'', Elapse 100, Input ''AB'']) \<noteq> []"
    by (simp add: SearchBar_run_def SearchBar_mounted_eq SearchBar_initial_def setQuery_def
        query_effect_def query_effect_cleanup_def setTimeout_def clearTimeout_def elapse_def)
  note cleared = cleared_input_empties_results [OF q typed, of 300]
  show ?thesis
    using cleared by blast
qed

section \<open>Responses that arrive out of order\<close>

text \<open>
  Claim C1 has a response dropped when a newer request has been issued since its own.
  Neither component keeps an epoch. On the page, the response to the mount request
  arrives after the response to the request of the changed filter and replaces its
  items, although the filters and the last request are those of the change. In the
  search box the results of the lookup for A replace those of the later lookup for AB.
\<close>

theorem stale_response_counterexample:
  "requests (Home_run race_trace) = [initial_filters, initial_filters\<lparr>market := Some Market_KOSPI\<rparr>]
   \<and> filters (Home_run race_trace) = initial_filters\<lparr>market := Some Market_KOSPI\<rparr>
   \<and> top10 (Home_run (butlast race_trace)) = [item_B]
   \<and> top10 (Home_run race_trace) = [item_A]
   \<and> asof (Home_run race_trace) = resp_asof response_A
   \<and> item_A \<noteq> item_B
   \<and> lookups (SearchBar_run search_race_trace) = [''A'', ''AB'']
   \<and> query (SearchBar_run search_race_trace) = ''AB''
   \<and> results (SearchBar_run (butlast search_race_trace)) = [symbol_AB]
   \<and> results (SearchBar_run search_race_trace) = [symbol_A]
   \<and> symbol_A \<noteq> symbol_AB"
proof -
  have home:
    "requests (Home_run race_trace) =
       [initial_filters, initial_filters\<lparr>market := Some Market_KOSPI\<rparr>]
     \<and> filters (Home_run race_trace) = initial_filters\<lparr>market := Some Market_KOSPI\<rparr>
     \<and> top10 (Home_run (butlast race_trace)) = [item_B]
     \<and> top10 (Home_run race_trace) = [item_A]
     \<and> asof (Home_run race_trace) = resp_asof response_A"
    by (simp add: Home_run_def race_trace_def Home_mounted_eq handleChange_def setFilters_def
        fetchTop10_call_def fetchTop10_resume_success [OF getTop10_settle_ok]
        response_A_def response_B_def)
  have items: "item_A \<noteq> item_B"
  proof
    assume "item_A = item_B"
    then have "name item_A = name item_B" by simp
    then show False by (simp add: item_A_def item_B_def)
  qed
  have search:
    "lookups (SearchBar_run search_race_trace) = [''A'', ''AB'']
     \<and> query (SearchBar_run search_race_trace) = ''AB''
     \<and> results (SearchBar_run (butlast search_race_trace)) = [symbol_AB]
     \<and> results (SearchBar_run search_race_trace) = [symbol_A]"
    by (simp add: SearchBar_run_def search_race_trace_def SearchBar_mounted_eq
        SearchBar_initial_def query_effect_def query_effect_cleanup_def setQuery_def
        setTimeout_def clearTimeout_def elapse_def timeout_call_def timeout_resume_success)
  have symbols: "symbol_A \<noteq> symbol_AB"
  proof
    assume "symbol_A = symbol_AB"
    then have "sym_name symbol_A = sym_name symbol_AB" by simp
    then show False by (simp add: symbol_A_def symbol_AB_def)
  qed
  from home items search symbols show ?thesis by blast
qed

text \<open>
  Claim C1, amended. In both components the response of any request still in flight
  is applied when it arrives, whatever has been requested since: a successful
  ranked-list response replaces the items and the time stamp by its own and ends
  loading; a successful lookup response replaces the results by its first ten symbols
  and opens the list. The displayed state is that of the response that arrived last.
\<close>

theorem every_response_is_applied:
  assumes "i \<in> set (in_flight s)" and "j \<in> set (lookups_in_flight b)"
  shows "top10 (Home_step s (Top10_settled i (Response True (Some response)))) = resp_items response
    \<and> asof (Home_step s (Top10_settled i (Response True (Some response)))) = resp_asof response
    \<and> loading (Home_step s (Top10_settled i (Response True (Some response)))) = False
    \<and> results (SearchBar_step b (Symbols_settled j (Response True (Some symbols)))) =
        take 10 symbols
    \<and> isOpen (SearchBar_step b (Symbols_settled j (Response True (Some symbols)))) = True
    \<and> searching (SearchBar_step b (Symbols_settled j (Response True (Some symbols)))) = False"
  by (simp add: settled_success [OF assms(1)] symbols_settled_success [OF assms(2)]
      del: Home_step.simps SearchBar_step.simps)

text \<open>The mount request and the request of a changed filter are both in flight, and so
  are two lookups; in each component the older one is answered.\<close>

theorem every_response_is_applied_witness:
  "top10 (Home_step (Home_run [Filter_change (Set_market (Some Market_KOSPI))])
       (Top10_settled 0 (Response True (Some response_A)))) = [item_A]
   \<and> results (SearchBar_step
       (SearchBar_run [Input ''A'', Elapse 300, Input ''AB'', Elapse 300])
       (Symbols_settled 0 (Response True (Some [symbol_A])))) = [symbol_A]"
proof -
  have i: "0 \<in> set (in_flight (Home_run [Filter_change (Set_market (Some Market_KOSPI))]))"
    by (simp add: Home_run_def Home_mounted_eq handleChange_def setFilters_def
        fetchTop10_call_def)
  have j: "0 \<in> set (lookups_in_flight
      (SearchBar_run [Input ''A'', Elapse 300, Input ''AB'', Elapse 300]))"
    by (simp add: SearchBar_run_def SearchBar_mounted_eq SearchBar_initial_def query_effect_def
        query_effect_cleanup_def setQuery_def setTimeout_def clearTimeout_def elapse_def
        timeout_call_def)
  note applied = every_response_is_applied [OF i j, of response_A "[symbol_A]"]
  have items: "resp_items response_A = [item_A]"
    by (simp add: response_A_def)
  have page: "top10 (Home_step (Home_run [Filter_change (Set_market (Some Market_KOSPI))])
       (Top10_settled 0 (Response True (Some response_A)))) = resp_items response_A"
    using applied by (rule conjunct1)
  have box: "results (SearchBar_step
       (SearchBar_run [Input ''A'', Elapse 300, Input ''AB'', Elapse 300])
       (Symbols_settled 0 (Response True (Some [symbol_A])))) = take 10 [symbol_A]"
    using applied by blast
  have "take 10 [symbol_A] = [symbol_A]"
    by simp
  with page [unfolded items] box show ?thesis by simp
qed

end
